theory Spec2Isabelle
  imports Main "HOL-Library.Char_ord"
begin

section \<open>Strings\<close>

text \<open>
  Strings are lists of characters. The model follows the JavaScript string operations on
  ASCII text: case folding maps \<open>A..Z\<close> to \<open>a..z\<close> and leaves every other character
  alone, and the white space of \<open>\s\<close> and \<open>trim()\<close> is tab, line feed, vertical tab,
  form feed, carriage return and space.
\<close>

definition lowerChar :: "char \<Rightarrow> char" where
  "lowerChar c =
     (let n = (of_char c :: nat) in if 65 \<le> n \<and> n \<le> 90 then char_of (n + 32) else c)"

definition upperChar :: "char \<Rightarrow> char" where
  "upperChar c =
     (let n = (of_char c :: nat) in if 97 \<le> n \<and> n \<le> 122 then char_of (n - 32) else c)"

definition toLowerCase :: "string \<Rightarrow> string" where
  "toLowerCase s = map lowerChar s"

definition toUpperCase :: "string \<Rightarrow> string" where
  "toUpperCase s = map upperChar s"

definition isSpace :: "char \<Rightarrow> bool" where
  "isSpace c = ((of_char c :: nat) \<in> {9, 10, 11, 12, 13, 32})"

definition isLineTerminator :: "char \<Rightarrow> bool" where
  "isLineTerminator c = ((of_char c :: nat) \<in> {10, 13})"

definition trim :: "string \<Rightarrow> string" where
  "trim s = rev (dropWhile isSpace (rev (dropWhile isSpace s)))"

fun startsWith :: "string \<Rightarrow> string \<Rightarrow> bool" where
  "startsWith s [] = True"
| "startsWith [] (p # ps) = False"
| "startsWith (c # cs) (p # ps) = (c = p \<and> startsWith cs ps)"

definition endsWith :: "string \<Rightarrow> string \<Rightarrow> bool" where
  "endsWith s p = startsWith (rev s) (rev p)"

fun includesStr :: "string \<Rightarrow> string \<Rightarrow> bool" where
  "includesStr [] p = (p = [])"
| "includesStr (c # cs) p = (startsWith (c # cs) p \<or> includesStr cs p)"

text \<open>\<open>findIndex\<close> of an array: the first index whose element passes, \<open>None\<close> for -1.\<close>

fun findIndex :: "('a \<Rightarrow> bool) \<Rightarrow> 'a list \<Rightarrow> nat option" where
  "findIndex P [] = None"
| "findIndex P (x # xs) =
     (if P x then Some 0 else map_option Suc (findIndex P xs))"

section \<open>Configuration\<close>

datatype AssistantMode = Claude | Codex

datatype CodexReasoningEffort = Minimal | Low | Medium | High | XHigh

datatype ClaudeReasoningEffort = ClaudeLow | ClaudeMedium | ClaudeHigh

fun effortName :: "CodexReasoningEffort \<Rightarrow> string" where
  "effortName Minimal = ''minimal''"
| "effortName Low = ''low''"
| "effortName Medium = ''medium''"
| "effortName High = ''high''"
| "effortName XHigh = ''xhigh''"

fun assistantName :: "AssistantMode \<Rightarrow> string" where
  "assistantName Claude = ''claude''"
| "assistantName Codex = ''codex''"

text \<open>
  The values of \<open>config.ts\<close> that the session and the safety policy read. They come from
  the process environment, so they are parameters of the model. \<open>realpathSync\<close> is the
  file system's symlink resolution (\<open>None\<close> when it throws, as for a path that does not
  exist) and \<open>cwd\<close> the process's working directory.
\<close>

record config =
  AI_ASSISTANT :: AssistantMode
  CLAUDE_MODEL :: string
  CLAUDE_REASONING_EFFORT :: ClaudeReasoningEffort
  CODEX_MODEL :: string
  CODEX_REASONING_EFFORT :: CodexReasoningEffort
  HOME :: string
  WORKING_DIR :: string
  RUNTIME_DIR :: string
  ALLOWED_PATHS :: "string list"
  STREAMING_THROTTLE_MS :: int
  STREAMING_SYNTHETIC_FALLBACK_MIN_CHARS :: int
  STREAMING_SYNTHETIC_STEP_CHARS :: int
  realpathSync :: "string \<Rightarrow> string option"
  cwd :: string

definition MAX_SESSIONS :: nat where
  "MAX_SESSIONS = 5"

section \<open>Model selection\<close>

definition compactToken :: "string \<Rightarrow> string" where
  "compactToken v =
     filter (\<lambda>c. \<not> (isSpace c \<or> c = CHR ''.'' \<or> c = CHR ''_'' \<or> c = CHR ''-''))
       (toLowerCase v)"

definition isCodexAlias :: "string \<Rightarrow> bool" where
  "isCodexAlias base = (compactToken base = ''codex'')"

definition isCodex53Alias :: "string \<Rightarrow> bool" where
  "isCodex53Alias base =
     (let compact = compactToken base in compact = ''codex53'' \<or> compact = ''gpt53codex'')"

definition efforts :: "CodexReasoningEffort list" where
  "efforts = [Minimal, Low, Medium, High, XHigh]"

definition parseEffortToken :: "string \<Rightarrow> CodexReasoningEffort option" where
  "parseEffortToken token =
     (let compact = compactToken token in find (\<lambda>e. compact = effortName e) efforts)"

definition parseClaudeAlias :: "string \<Rightarrow> string option" where
  "parseClaudeAlias selection =
     (let compact = compactToken selection in
      if compact = ''claude46opus'' \<or> compact = ''opus46'' then Some ''claude-opus-4-6''
      else if compact = ''claude45sonnet'' \<or> compact = ''sonnet45'' then Some ''claude-sonnet-4-5''
      else None)"

text \<open>
  The regular expression \<open>/^(.*?)[\s_-]+(minimal|low|medium|high|xhigh)$/\<close>. The lazy
  group is grown one character at a time (never over a line terminator); at each length
  the rest must be a non-empty run of separators followed by exactly one effort word.
  No effort word starts with a separator, so the greedy run is the whole run.
\<close>

definition isSeparator :: "char \<Rightarrow> bool" where
  "isSeparator c = (isSpace c \<or> c = CHR ''_'' \<or> c = CHR ''-'')"

definition matchSeparatorsEffort :: "string \<Rightarrow> string option" where
  "matchSeparatorsEffort rest =
     (let word = dropWhile isSeparator rest in
      if takeWhile isSeparator rest \<noteq> [] \<and> word \<in> set (map effortName efforts)
      then Some word else None)"

fun spacedMatchFrom :: "string \<Rightarrow> string \<Rightarrow> (string \<times> string) option" where
  "spacedMatchFrom base [] = None"
| "spacedMatchFrom base (c # cs) =
     (case matchSeparatorsEffort (c # cs) of
        Some word \<Rightarrow> Some (base, word)
      | None \<Rightarrow> if isLineTerminator c then None else spacedMatchFrom (base @ [c]) cs)"

definition spacedMatch :: "string \<Rightarrow> (string \<times> string) option" where
  "spacedMatch normalized = spacedMatchFrom [] normalized"

text \<open>
  The regular expression \<open>/^(codex53|gpt53codex|codex)(minimal|low|medium|high|xhigh)$/\<close>:
  the alternatives are tried in their order, the whole string must be consumed.
\<close>

definition compactMatch :: "string \<Rightarrow> (string \<times> string) option" where
  "compactMatch compact =
     find (\<lambda>(m, e). compact = m @ e)
       (concat (map (\<lambda>m. map (\<lambda>e. (m, effortName e)) efforts)
          [''codex53'', ''gpt53codex'', ''codex'']))"

definition parseCodexPresetCompact ::
  "string \<Rightarrow> string \<Rightarrow> (string \<times> CodexReasoningEffort) option" where
  "parseCodexPresetCompact codexModel selection =
     (case compactMatch (compactToken selection) of
        None \<Rightarrow> None
      | Some (m, e) \<Rightarrow>
          (case parseEffortToken e of
             None \<Rightarrow> None
           | Some effort \<Rightarrow>
               Some (if m = ''codex'' then codexModel else ''gpt-5.3-codex'', effort)))"

definition parseCodexPreset ::
  "string \<Rightarrow> string \<Rightarrow> (string \<times> CodexReasoningEffort) option" where
  "parseCodexPreset codexModel selection =
     (let normalized = trim (toLowerCase selection) in
      case spacedMatch normalized of
        Some (g1, g2) \<Rightarrow>
          (let base = trim g1 in
           case parseEffortToken g2 of
             None \<Rightarrow> None
           | Some effort \<Rightarrow>
               if isCodex53Alias base then Some (''gpt-5.3-codex'', effort)
               else if isCodexAlias base then Some (codexModel, effort)
               else parseCodexPresetCompact codexModel selection)
      | None \<Rightarrow> parseCodexPresetCompact codexModel selection)"

section \<open>The session\<close>

type_synonym date = int

record TokenUsage =
  input_tokens :: nat
  output_tokens :: nat
  cache_read_input_tokens :: nat
  cache_creation_input_tokens :: nat

text \<open>
  The fields of \<open>ClaudeSession\<close>. A nullable field is an option; \<open>abortController\<close> is
  \<open>Some aborted\<close> while a controller exists.
\<close>

record session =
  sessionId :: "string option"
  lastActivity :: "date option"
  queryStarted :: "date option"
  currentTool :: "string option"
  lastTool :: "string option"
  lastError :: "string option"
  lastErrorTime :: "date option"
  lastUsage :: "TokenUsage option"
  lastMessage :: "string option"
  conversationTitle :: "string option"
  assistantMode :: AssistantMode
  claudeModel :: string
  claudeEffort :: ClaudeReasoningEffort
  codexModel :: string
  codexEffort :: CodexReasoningEffort
  abortController :: "bool option"
  isQueryRunning :: bool
  stopRequested :: bool
  isProcessing :: bool
  wasInterruptedByNewMessage :: bool

definition newSession :: "config \<Rightarrow> session" where
  "newSession cfg =
     \<lparr> sessionId = None, lastActivity = None, queryStarted = None, currentTool = None,
       lastTool = None, lastError = None, lastErrorTime = None, lastUsage = None,
       lastMessage = None, conversationTitle = None,
       assistantMode = AI_ASSISTANT cfg, claudeModel = CLAUDE_MODEL cfg,
       claudeEffort = CLAUDE_REASONING_EFFORT cfg, codexModel = CODEX_MODEL cfg,
       codexEffort = CODEX_REASONING_EFFORT cfg, abortController = None,
       isQueryRunning = False, stopRequested = False, isProcessing = False,
       wasInterruptedByNewMessage = False \<rparr>"

text \<open>JavaScript truthiness of a nullable string: present and not empty.\<close>

fun truthy :: "string option \<Rightarrow> bool" where
  "truthy None = False"
| "truthy (Some v) = (v \<noteq> [])"

definition isActive :: "session \<Rightarrow> bool" where
  "isActive s = (sessionId s \<noteq> None)"

definition isRunning :: "session \<Rightarrow> bool" where
  "isRunning s = (isQueryRunning s \<or> isProcessing s)"

definition model :: "session \<Rightarrow> string" where
  "model s = (if assistantMode s = Codex then codexModel s else claudeModel s)"

definition modelDisplay :: "session \<Rightarrow> string" where
  "modelDisplay s =
     (if assistantMode s = Codex then
        (if compactToken (codexModel s) = ''gpt53codex''
         then ''codex 5.3 '' @ effortName (codexEffort s)
         else codexModel s @ '' ('' @ effortName (codexEffort s) @ '')'')
      else if compactToken (claudeModel s) = ''claudeopus46'' then ''opus 4.6''
      else if compactToken (claudeModel s) = ''claudesonnet45'' then ''sonnet 4.5''
      else claudeModel s)"

definition consumeInterruptFlag :: "session \<Rightarrow> bool \<times> session" where
  "consumeInterruptFlag s =
     (let was = wasInterruptedByNewMessage s;
          s1 = s\<lparr>wasInterruptedByNewMessage := False\<rparr>
      in (was, if was then s1\<lparr>stopRequested := False\<rparr> else s1))"

definition markInterrupt :: "session \<Rightarrow> session" where
  "markInterrupt s = s\<lparr>wasInterruptedByNewMessage := True\<rparr>"

definition clearStopRequested :: "session \<Rightarrow> session" where
  "clearStopRequested s = s\<lparr>stopRequested := False\<rparr>"

subsection \<open>setModel\<close>

text \<open>
  The branch chain of \<open>setModel\<close> that writes the selection into the session; \<open>None\<close>
  is the early return for an unknown name that starts with \<open>claude\<close>.
\<close>

definition applySelection :: "config \<Rightarrow> string \<Rightarrow> session \<Rightarrow> session option" where
  "applySelection cfg selection s =
     (let normalized = toLowerCase selection in
      case parseCodexPreset (CODEX_MODEL cfg) selection of
        Some (m, e) \<Rightarrow> Some (s\<lparr>assistantMode := Codex, codexModel := m, codexEffort := e\<rparr>)
      | None \<Rightarrow>
          (case parseClaudeAlias selection of
             Some claudeAlias \<Rightarrow> Some (s\<lparr>assistantMode := Claude, claudeModel := claudeAlias\<rparr>)
           | None \<Rightarrow>
               if normalized = ''claude''
               then Some (s\<lparr>assistantMode := Claude, claudeModel := CLAUDE_MODEL cfg\<rparr>)
               else if normalized = ''codex''
               then Some (s\<lparr>assistantMode := Codex, codexModel := CODEX_MODEL cfg,
                            codexEffort := CODEX_REASONING_EFFORT cfg\<rparr>)
               else if startsWith normalized ''claude'' then None
               else Some (s\<lparr>assistantMode := Codex, codexModel := selection\<rparr>)))"

definition resetSession :: "session \<Rightarrow> session" where
  "resetSession s =
     s\<lparr>sessionId := None, lastActivity := None, queryStarted := None, currentTool := None,
       lastTool := None, lastUsage := None, lastError := None, lastErrorTime := None\<rparr>"

definition unchangedMessage :: "session \<Rightarrow> string" where
  "unchangedMessage s =
     ''Model unchanged: '' @ modelDisplay s @ '' ('' @
       toUpperCase (assistantName (assistantMode s)) @ '')''"

definition switchedMessage :: "session \<Rightarrow> string" where
  "switchedMessage s =
     ''Model switched to '' @ modelDisplay s @ '' ('' @
       toUpperCase (assistantName (assistantMode s)) @ ''). Started a fresh session.''"

definition claudeModelsMessage :: string where
  "claudeModelsMessage =
     ''Claude models: '' @ [CHR 0x27] @ ''opus 4.6'' @ [CHR 0x27] @ '' or '' @
       [CHR 0x27] @ ''sonnet 4.5'' @ [CHR 0x27]"

definition setModel :: "config \<Rightarrow> string \<Rightarrow> session \<Rightarrow> bool \<times> string \<times> session" where
  "setModel cfg selectionRaw s =
     (let selection = trim selectionRaw in
      if selection = [] then
        (False, ''Usage: /model <opus 4.6|sonnet 4.5|codex 5.3 high|...>'', s)
      else
        (case applySelection cfg selection s of
           None \<Rightarrow> (False, claudeModelsMessage, s)
         | Some s1 \<Rightarrow>
             (let changed =
                    (assistantMode s \<noteq> assistantMode s1 \<or> model s \<noteq> model s1 \<or>
                     codexEffort s \<noteq> codexEffort s1)
              in if \<not> changed then (True, unchangedMessage s1, s1)
                 else (True, switchedMessage (resetSession s1), resetSession s1))))"

subsection \<open>The stop request\<close>

datatype StopResult = Stopped | Pending | NothingRunning

text \<open>
  \<open>stop()\<close>: with a running query and an abort controller it sets the flag and aborts the
  controller; with a running query alone (the Codex turn) it sets the flag; while only
  processing it sets the flag for the turn that is about to start.
\<close>

definition stop :: "session \<Rightarrow> StopResult \<times> session" where
  "stop s =
     (if isQueryRunning s \<and> abortController s \<noteq> None
      then (Stopped, s\<lparr>stopRequested := True, abortController := Some True\<rparr>)
      else if isQueryRunning s then (Stopped, s\<lparr>stopRequested := True\<rparr>)
      else if isProcessing s then (Pending, s\<lparr>stopRequested := True\<rparr>)
      else (NothingRunning, s))"

definition startProcessing :: "session \<Rightarrow> session" where
  "startProcessing s = s\<lparr>isProcessing := True\<rparr>"

section \<open>Saved sessions\<close>

text \<open>
  An entry of the session history file, with the fields that the session code writes and
  reads. The fields that older files may lack, or that \<open>saveSession\<close> leaves undefined,
  are options. The file is modelled by the list of its entries; a missing or unreadable
  file is the empty list, and a write takes effect at once.
\<close>

record SavedSession =
  session_id :: string
  saved_at :: date
  working_dir :: "string option"
  title :: string
  assistant :: "AssistantMode option"
  saved_model :: "string option"
  codex_reasoning_effort :: "CodexReasoningEffort option"

definition makeSavedSession :: "config \<Rightarrow> date \<Rightarrow> string \<Rightarrow> session \<Rightarrow> SavedSession" where
  "makeSavedSession cfg now sid s =
     \<lparr> session_id = sid, saved_at = now, working_dir = Some (WORKING_DIR cfg),
       title = (if truthy (conversationTitle s) then the (conversationTitle s)
                else ''Sessione senza titolo''),
       assistant = Some (assistantMode s), saved_model = Some (model s),
       codex_reasoning_effort =
         (if assistantMode s = Codex then Some (codexEffort s) else None) \<rparr>"

definition saveSession ::
  "config \<Rightarrow> date \<Rightarrow> session \<Rightarrow> SavedSession list \<Rightarrow> SavedSession list" where
  "saveSession cfg now s history =
     (if \<not> truthy (sessionId s) then history
      else
        (let sid = the (sessionId s);
             newEntry = makeSavedSession cfg now sid s;
             sessions =
               (case findIndex (\<lambda>e. session_id e = sid) history of
                  Some existingIndex \<Rightarrow> history[existingIndex := newEntry]
                | None \<Rightarrow> newEntry # history)
         in take MAX_SESSIONS sessions))"

definition getSessionList :: "config \<Rightarrow> SavedSession list \<Rightarrow> SavedSession list" where
  "getSessionList cfg history =
     filter (\<lambda>e. \<not> truthy (working_dir e) \<or> working_dir e = Some (WORKING_DIR cfg)) history"

definition notFoundMessage :: string where
  "notFoundMessage = ''Sessione non trovata''"

definition wrongDirectoryMessage :: "string \<Rightarrow> string" where
  "wrongDirectoryMessage dir = ''Sessione per directory diversa: '' @ dir"

definition restoreSession :: "date \<Rightarrow> SavedSession \<Rightarrow> session \<Rightarrow> session" where
  "restoreSession now e s =
     (let s1 = s\<lparr>sessionId := Some (session_id e), conversationTitle := Some (title e),
                 lastActivity := Some now\<rparr>;
          s2 = (case assistant e of Some a \<Rightarrow> s1\<lparr>assistantMode := a\<rparr> | None \<Rightarrow> s1)
      in if truthy (saved_model e) then
           (if assistantMode s2 = Codex then
              (let s3 = s2\<lparr>codexModel := the (saved_model e)\<rparr>
               in case codex_reasoning_effort e of
                    Some eff \<Rightarrow> s3\<lparr>codexEffort := eff\<rparr>
                  | None \<Rightarrow> s3)
            else s2\<lparr>claudeModel := the (saved_model e)\<rparr>)
         else s2)"

definition resumeSession ::
  "config \<Rightarrow> date \<Rightarrow> string \<Rightarrow> SavedSession list \<Rightarrow> session \<Rightarrow> bool \<times> string \<times> session" where
  "resumeSession cfg now sid history s =
     (case find (\<lambda>e. session_id e = sid) history of
        None \<Rightarrow> (False, notFoundMessage, s)
      | Some e \<Rightarrow>
          if truthy (working_dir e) \<and> the (working_dir e) \<noteq> WORKING_DIR cfg
          then (False, wrongDirectoryMessage (the (working_dir e)), s)
          else (True, ''Ripresa sessione: '' @ [CHR 0x22] @ title e @ [CHR 0x22],
                restoreSession now e s))"

section \<open>Safety policy\<close>

subsection \<open>Paths\<close>

text \<open>
  \<open>normalize\<close>, \<open>resolve\<close> and \<open>isAbsolute\<close> are the POSIX functions of the runtime's
  \<open>path\<close> module, written out here: a path is cut at its slashes, empty and \<open>.\<close>
  segments are dropped, and \<open>..\<close> removes the segment before it (or stays, in a relative
  path that has nothing left to remove).
\<close>

fun splitSlash :: "string \<Rightarrow> string \<Rightarrow> string list" where
  "splitSlash cur [] = [cur]"
| "splitSlash cur (c # cs) =
     (if c = CHR ''/'' then cur # splitSlash [] cs else splitSlash (cur @ [c]) cs)"

fun joinSlash :: "string list \<Rightarrow> string" where
  "joinSlash [] = []"
| "joinSlash [x] = x"
| "joinSlash (x # y # ys) = x @ ''/'' @ joinSlash (y # ys)"

fun normalizeSegments :: "bool \<Rightarrow> string list \<Rightarrow> string list \<Rightarrow> string list" where
  "normalizeSegments allowAboveRoot res [] = rev res"
| "normalizeSegments allowAboveRoot res (seg # segs) =
     (if seg = [] \<or> seg = ''.'' then normalizeSegments allowAboveRoot res segs
      else if seg = ''..'' then
        (case res of
           [] \<Rightarrow> normalizeSegments allowAboveRoot (if allowAboveRoot then [''..''] else []) segs
         | r # rs \<Rightarrow>
             if r = ''..''
             then normalizeSegments allowAboveRoot (if allowAboveRoot then ''..'' # res else res) segs
             else normalizeSegments allowAboveRoot rs segs)
      else normalizeSegments allowAboveRoot (seg # res) segs)"

definition normalizeString :: "string \<Rightarrow> bool \<Rightarrow> string" where
  "normalizeString path allowAboveRoot =
     joinSlash (normalizeSegments allowAboveRoot [] (splitSlash [] path))"

definition isAbsolute :: "string \<Rightarrow> bool" where
  "isAbsolute path = startsWith path ''/''"

definition normalizePath :: "string \<Rightarrow> string" where
  "normalizePath path =
     (if path = [] then ''.''
      else
        (let trailingSeparator = endsWith path ''/'';
             p = normalizeString path (\<not> isAbsolute path)
         in if p = [] then
              (if isAbsolute path then ''/'' else if trailingSeparator then ''./'' else ''.'')
            else
              (let q = (if trailingSeparator then p @ ''/'' else p)
               in if isAbsolute path then ''/'' @ q else q)))"

fun resolveLoop :: "string \<Rightarrow> string list \<Rightarrow> string \<Rightarrow> string \<times> bool" where
  "resolveLoop cwdir [] acc =
     (if cwdir = [] then (acc, False) else (cwdir @ ''/'' @ acc, isAbsolute cwdir))"
| "resolveLoop cwdir (p # ps) acc =
     (if p = [] then resolveLoop cwdir ps acc
      else if isAbsolute p then (p @ ''/'' @ acc, True)
      else resolveLoop cwdir ps (p @ ''/'' @ acc))"

definition resolve :: "string \<Rightarrow> string list \<Rightarrow> string" where
  "resolve cwdir paths =
     (case resolveLoop cwdir (rev paths) [] of
        (resolvedPath, resolvedAbsolute) \<Rightarrow>
          (let p = normalizeString resolvedPath (\<not> resolvedAbsolute)
           in if resolvedAbsolute then ''/'' @ p else if p \<noteq> [] then p else ''.''))"

definition stripWrappingQuotes :: "string \<Rightarrow> string" where
  "stripWrappingQuotes v =
     (if (startsWith v [CHR 0x22] \<and> endsWith v [CHR 0x22]) \<or>
         (startsWith v [CHR 0x27] \<and> endsWith v [CHR 0x27])
      then butlast (tl v) else v)"

text \<open>
  \<open>replacePrefix\<close> is \<open>.replace(/^NAME(?=\/|$)/, home)\<close>: the name at the start of the
  path, followed by a slash or by nothing, is replaced by the home directory.
\<close>

definition replacePrefix :: "string \<Rightarrow> string \<Rightarrow> string \<Rightarrow> string" where
  "replacePrefix name home p =
     (let rest = drop (length name) p
      in if startsWith p name \<and> (rest = [] \<or> startsWith rest ''/'') then home @ rest else p)"

definition expandUserPath :: "config \<Rightarrow> string \<Rightarrow> string" where
  "expandUserPath cfg rawPath =
     (let dequoted = stripWrappingQuotes (trim rawPath)
      in replacePrefix ''$HOME'' (HOME cfg) (replacePrefix ''~'' (HOME cfg) dequoted))"

definition TEMP_PATHS :: "config \<Rightarrow> string list" where
  "TEMP_PATHS cfg = [RUNTIME_DIR cfg @ ''/'', ''/tmp/'', ''/private/tmp/'', ''/var/folders/'']"

text \<open>
  The absolute form of a path that \<open>isPathAllowed\<close> tests: expanded, normalised, made
  absolute against the working directory, symlinks resolved when the file system can.
\<close>

definition resolvedPath :: "config \<Rightarrow> string \<Rightarrow> string" where
  "resolvedPath cfg path =
     (let normalizedPath = normalizePath (expandUserPath cfg path);
          candidate = (if isAbsolute normalizedPath then normalizedPath
                       else resolve (cwd cfg) [WORKING_DIR cfg, normalizedPath])
      in case realpathSync cfg candidate of
           Some real \<Rightarrow> real
         | None \<Rightarrow>
             if isAbsolute normalizedPath then resolve (cwd cfg) [normalizedPath]
             else resolve (cwd cfg) [WORKING_DIR cfg, normalizedPath])"

definition isPathAllowed :: "config \<Rightarrow> string \<Rightarrow> bool" where
  "isPathAllowed cfg path =
     (let resolved = resolvedPath cfg path
      in if list_ex (\<lambda>tempPath. startsWith resolved tempPath) (TEMP_PATHS cfg) then True
         else list_ex
                (\<lambda>allowed.
                   (let allowedResolved = resolve (cwd cfg) [allowed]
                    in resolved = allowedResolved \<or> startsWith resolved (allowedResolved @ ''/'')))
                (ALLOWED_PATHS cfg))"

subsection \<open>Commands\<close>

definition BLOCKED_PATTERNS :: "string list" where
  "BLOCKED_PATTERNS =
     [''rm -rf /'', ''rm -rf ~'', ''rm -rf $HOME'', ''sudo rm'', '':(){ :|:& };:'',
      ''> /dev/sd'', ''mkfs.'', ''dd if='']"

definition isWordChar :: "char \<Rightarrow> bool" where
  "isWordChar c =
     (let n = (of_char c :: nat)
      in (48 \<le> n \<and> n \<le> 57) \<or> (65 \<le> n \<and> n \<le> 90) \<or> (97 \<le> n \<and> n \<le> 122) \<or> n = 95)"

text \<open>
  \<open>/\brm\b/i\<close>: the letters \<open>rm\<close> in either case, with no word character right
  before or right after them. \<open>prev\<close> is the character before the current position.
\<close>

fun mentionsRmFrom :: "char option \<Rightarrow> string \<Rightarrow> bool" where
  "mentionsRmFrom prev [] = False"
| "mentionsRmFrom prev (c # cs) =
     ((toLowerCase (take 2 (c # cs)) = ''rm'' \<and>
       (case prev of None \<Rightarrow> True | Some b \<Rightarrow> \<not> isWordChar b) \<and>
       (case drop 1 cs of [] \<Rightarrow> True | a # _ \<Rightarrow> \<not> isWordChar a))
      \<or> mentionsRmFrom (Some c) cs)"

definition mentionsRm :: "string \<Rightarrow> bool" where
  "mentionsRm command = mentionsRmFrom None command"

text \<open>\<open>command.split(/&&|\|\||;|\|/)\<close>: the pieces between the shell operators.\<close>

fun splitSegments :: "string \<Rightarrow> string \<Rightarrow> string list" where
  "splitSegments cur [] = [cur]"
| "splitSegments cur [c] =
     (if c = CHR '';'' \<or> c = CHR ''|'' then [cur, []] else [cur @ [c]])"
| "splitSegments cur (c # d # cs) =
     (if (c = CHR ''&'' \<and> d = CHR ''&'') \<or> (c = CHR ''|'' \<and> d = CHR ''|'')
      then cur # splitSegments [] cs
      else if c = CHR '';'' \<or> c = CHR ''|'' then cur # splitSegments [] (d # cs)
      else splitSegments (cur @ [c]) (d # cs))"

text \<open>
  \<open>segment.match(/"[^"]*"|'[^']*'|\S+/g)\<close>: at each position a double-quoted piece, else a
  single-quoted piece, else a run of characters that are not white space; white space
  between tokens is skipped. A quote with no closing quote starts a plain run.
\<close>

function tokens :: "string \<Rightarrow> string list" where
  "tokens [] = []"
| "tokens (c # cs) =
     (if (c = CHR 0x22 \<or> c = CHR 0x27) \<and> dropWhile (\<lambda>x. x \<noteq> c) cs \<noteq> []
      then (c # takeWhile (\<lambda>x. x \<noteq> c) cs @ [c]) # tokens (tl (dropWhile (\<lambda>x. x \<noteq> c) cs))
      else if isSpace c then tokens cs
      else (c # takeWhile (\<lambda>x. \<not> isSpace x) cs) # tokens (dropWhile (\<lambda>x. \<not> isSpace x) cs))"
  by pat_completeness auto
termination
proof (relation "measure length")
  show "wf (measure length)" by simp
next
  fix c :: char and cs :: string
  have "length (tl (dropWhile (\<lambda>x. x \<noteq> c) cs)) \<le> length cs"
    using length_dropWhile_le[of "\<lambda>x. x \<noteq> c" cs] by simp
  then show "(tl (dropWhile (\<lambda>x. x \<noteq> c) cs), c # cs) \<in> measure length" by simp
next
  fix c :: char and cs :: string
  show "(cs, c # cs) \<in> measure length" by simp
next
  fix c :: char and cs :: string
  have "length (dropWhile (\<lambda>x. \<not> isSpace x) cs) \<le> length cs"
    by (rule length_dropWhile_le)
  then show "(dropWhile (\<lambda>x. \<not> isSpace x) cs, c # cs) \<in> measure length" by simp
qed

text \<open>\<open>/^(?:\S*\/)?rm$/i\<close>: \<open>rm\<close> itself, or a path without white space that ends in \<open>/rm\<close>.\<close>

definition isRmToken :: "string \<Rightarrow> bool" where
  "isRmToken t =
     (let n = length t; dir = take (n - 2) t
      in 2 \<le> n \<and> toLowerCase (drop (n - 2) t) = ''rm'' \<and>
         (dir = [] \<or> (endsWith dir ''/'' \<and> \<not> list_ex isSpace dir)))"

fun checkRmArgs :: "config \<Rightarrow> string list \<Rightarrow> string option" where
  "checkRmArgs cfg [] = None"
| "checkRmArgs cfg (rawArg # rest) =
     (let arg = stripWrappingQuotes rawArg
      in if arg = [] \<or> startsWith arg ''-'' \<or> arg = ''--'' then checkRmArgs cfg rest
         else if \<not> isPathAllowed cfg arg then Some rawArg
         else checkRmArgs cfg rest)"

fun checkSegments :: "config \<Rightarrow> string list \<Rightarrow> string option" where
  "checkSegments cfg [] = None"
| "checkSegments cfg (segment # rest) =
     (let toks = tokens segment
      in case findIndex (\<lambda>token. isRmToken (stripWrappingQuotes token)) toks of
           None \<Rightarrow> checkSegments cfg rest
         | Some rmIndex \<Rightarrow>
             (case checkRmArgs cfg (drop (rmIndex + 1) toks) of
                Some rawArg \<Rightarrow> Some rawArg
              | None \<Rightarrow> checkSegments cfg rest))"

definition checkCommandSafety :: "config \<Rightarrow> string \<Rightarrow> bool \<times> string" where
  "checkCommandSafety cfg command =
     (let lowerCommand = toLowerCase command
      in case find (\<lambda>pattern. includesStr lowerCommand (toLowerCase pattern)) BLOCKED_PATTERNS of
           Some pattern \<Rightarrow> (False, ''Blocked pattern: '' @ pattern)
         | None \<Rightarrow>
             if mentionsRm command then
               (case checkSegments cfg (splitSegments [] command) of
                  Some rawArg \<Rightarrow> (False, ''rm target outside allowed paths: '' @ rawArg)
                | None \<Rightarrow> (True, []))
             else (True, []))"

section \<open>Examples, and notions used in the properties\<close>

definition exampleConfig :: config where
  "exampleConfig =
     \<lparr> AI_ASSISTANT = Claude, CLAUDE_MODEL = ''claude-opus-4-6'',
       CLAUDE_REASONING_EFFORT = ClaudeHigh, CODEX_MODEL = ''gpt-5.3-codex'',
       CODEX_REASONING_EFFORT = Medium, HOME = ''/home/u'', WORKING_DIR = ''/home/u'',
       RUNTIME_DIR = ''/home/u/sessions'', ALLOWED_PATHS = [''/home/u''],
       STREAMING_THROTTLE_MS = 250, STREAMING_SYNTHETIC_FALLBACK_MIN_CHARS = 280,
       STREAMING_SYNTHETIC_STEP_CHARS = 220, realpathSync = (\<lambda>p. None),
       cwd = ''/home/u'' \<rparr>"

definition activeSession :: session where
  "activeSession =
     (newSession exampleConfig)\<lparr>sessionId := Some ''abc'', lastTool := Some ''ls''\<rparr>"

text \<open>
  The configuration a selection changes: the assistant, its model, and the effort of the
  assistant that is active.
\<close>

definition activeConfig ::
  "session \<Rightarrow> AssistantMode \<times> string \<times> (CodexReasoningEffort + ClaudeReasoningEffort)" where
  "activeConfig s =
     (assistantMode s, model s,
      if assistantMode s = Codex then Inl (codexEffort s) else Inr (claudeEffort s))"

definition persistAll ::
  "config \<Rightarrow> (date \<times> session) list \<Rightarrow> SavedSession list \<Rightarrow> SavedSession list" where
  "persistAll cfg calls history = foldl (\<lambda>h (now, s). saveSession cfg now s h) history calls"

definition exampleHistory :: "SavedSession list" where
  "exampleHistory =
     [makeSavedSession exampleConfig 10 ''abc'' activeSession,
      (makeSavedSession exampleConfig 5 ''old'' activeSession)\<lparr>working_dir := Some ''/srv''\<rparr>]"

text \<open>
  What the temp-directory rule and the \<open>rm\<close> check look at: whether the resolved form of a
  path starts with a temp prefix; whether a blocked pattern occurs; and the tokens that
  the \<open>rm\<close> check tests as paths. These are, in each shell segment, all the tokens after
  the first \<open>rm\<close> token, quotes stripped, but for the empty ones and those that start with
  a dash: the file operands of \<open>rm\<close>, and with them whatever else stands in the segment,
  such as a redirection operator and its operand, a single \<open>&\<close>, and the words of a
  command that follows it.
\<close>

definition inTempPath :: "config \<Rightarrow> string \<Rightarrow> bool" where
  "inTempPath cfg path =
     list_ex (\<lambda>tempPath. startsWith (resolvedPath cfg path) tempPath) (TEMP_PATHS cfg)"

definition checkedAfterRm :: "string list \<Rightarrow> string list" where
  "checkedAfterRm toks =
     (case findIndex (\<lambda>token. isRmToken (stripWrappingQuotes token)) toks of
        None \<Rightarrow> []
      | Some rmIndex \<Rightarrow>
          filter (\<lambda>arg. \<not> (arg = [] \<or> startsWith arg ''-''))
            (map stripWrappingQuotes (drop (rmIndex + 1) toks)))"

definition checkedTokens :: "string \<Rightarrow> string list" where
  "checkedTokens command = concat (map (\<lambda>segment. checkedAfterRm (tokens segment)) (splitSegments [] command))"

definition noBlockedPattern :: "string \<Rightarrow> bool" where
  "noBlockedPattern command =
     (find (\<lambda>pattern. includesStr (toLowerCase command) (toLowerCase pattern)) BLOCKED_PATTERNS = None)"

section \<open>The turn runner\<close>

subsection \<open>Events\<close>

text \<open>The calls of the status callback: its type, its content and, for text, the segment.\<close>

datatype StatusEvent =
    ThinkingEvent string
  | ToolEvent string
  | TextEvent string nat
  | SegmentEnd string nat
  | Done

text \<open>
  What the Claude query yields: messages with an optional \<open>session_id\<close>; an assistant
  message carries content blocks, a result message may carry the usage.
\<close>

record ToolInput =
  tool_command :: "string option"
  tool_file_path :: "string option"

datatype ContentBlock =
    Thinking string
  | ToolUse string ToolInput
  | Text string
  | OtherBlock

datatype SDKMessage =
    AssistantMessage "string option" "ContentBlock list"
  | ResultMessage "string option" "TokenUsage option"
  | OtherMessage "string option"

fun eventSessionId :: "SDKMessage \<Rightarrow> string option" where
  "eventSessionId (AssistantMessage sid blocks) = sid"
| "eventSessionId (ResultMessage sid usage) = sid"
| "eventSessionId (OtherMessage sid) = sid"

text \<open>What a Codex thread yields; a missing \<open>message\<close>, \<open>item\<close> or \<open>text\<close> is \<open>None\<close>.\<close>

datatype CodexItem =
    Reasoning "string option"
  | CommandExecution "string option"
  | AgentMessage "string option"
  | OtherItem

datatype CodexEvent =
    ErrorEvent "string option"
  | TurnFailed "string option"
  | ItemCompleted "CodexItem option"
  | TurnCompleted
  | OtherCodexEvent

text \<open>
  The backend's stream as the loop meets it, one item for each thing that happens while
  the loop waits for it: the stream yields its next event; or the stream throws (the
  exception is given by the text that \<open>String(error)\<close> makes of it); or another handler
  calls \<open>stop()\<close>. The loop waits for the stream when it asks for the next event, and
  also when it leaves the \<open>for await\<close> by a \<open>break\<close>, which closes the stream: an
  exception that the stream throws while it is closed is the \<open>Throws\<close> item that
  follows the event at which the loop breaks.
\<close>

datatype 'e StreamItem = Yields 'e | Throws string | StopCalled

text \<open>
  What the turn reads from outside: the clock (its n-th reading), the pending ask-user
  requests (the result of the n-th poll), the tool label formatter of \<open>formatting.ts\<close>,
  whether a chat context and a chat id were passed, the id the Codex thread reports, and
  whether resuming the Codex thread throws.
\<close>

record world =
  clock :: "nat \<Rightarrow> date"
  checkPendingAskUserRequests :: "nat \<Rightarrow> bool"
  formatToolStatus :: "string \<Rightarrow> ToolInput \<Rightarrow> string"
  ctxPresent :: bool
  chatId :: "nat option"
  threadId :: "string option"
  resumeThreadThrows :: bool

text \<open>
  The state of a turn: the session object, the session file, the status events emitted so
  far, the local variables of the loop, and how often the clock and the ask-user store
  have been read.
\<close>

record run =
  this :: session
  sessionFile :: "SavedSession list"
  emitted :: "StatusEvent list"
  responseParts :: "string list"
  currentSegmentId :: nat
  currentSegmentText :: string
  lastTextUpdate :: int
  textCallbackCount :: nat
  lastEmittedTextLength :: int
  queryCompleted :: bool
  askUserTriggered :: bool
  ticks :: nat
  polls :: nat

datatype flow = Continue | Break | Throw string

definition emit :: "StatusEvent \<Rightarrow> run \<Rightarrow> run" where
  "emit e r = r\<lparr>emitted := emitted r @ [e]\<rparr>"

definition readClock :: "world \<Rightarrow> run \<Rightarrow> date" where
  "readClock w r = clock w (ticks r)"

definition tick :: "run \<Rightarrow> run" where
  "tick r = r\<lparr>ticks := Suc (ticks r)\<rparr>"

text \<open>\<open>String(new Error(message))\<close>.\<close>

definition errorText :: "string \<Rightarrow> string" where
  "errorText message = (if message = [] then ''Error'' else ''Error: '' @ message)"

definition orElse :: "string option \<Rightarrow> string \<Rightarrow> string" where
  "orElse v d = (if truthy v then the v else d)"

definition persist :: "config \<Rightarrow> world \<Rightarrow> run \<Rightarrow> run" where
  "persist cfg w r = tick (r\<lparr>sessionFile := saveSession cfg (readClock w r) (this r) (sessionFile r)\<rparr>)"

text \<open>
  Leaving the loop by \<open>break\<close>: the stream is closed. If the stream throws while it is
  closed, the exception leaves the \<open>for await\<close> statement in place of the break; while the
  loop waits for the close, \<open>stop()\<close> may still be called.
\<close>

fun closeStream :: "'e StreamItem list \<Rightarrow> run \<Rightarrow> flow \<times> run" where
  "closeStream [] r = (Break, r)"
| "closeStream (Yields event # items) r = (Break, r)"
| "closeStream (Throws e # items) r = (Throw e, r)"
| "closeStream (StopCalled # items) r = closeStream items (r\<lparr>this := snd (stop (this r))\<rparr>)"

subsection \<open>Text and segments\<close>

text \<open>
  The handling of a piece of text, the same in both adapters: the first text of a turn
  that is already as long as the fallback threshold is shown as a short prefix; any other
  text is shown in full when it is the first, or when the throttle interval has passed.
\<close>

definition streamText :: "config \<Rightarrow> world \<Rightarrow> string \<Rightarrow> run \<Rightarrow> run" where
  "streamText cfg w text r =
     (let r1 = r\<lparr>responseParts := responseParts r @ [text],
                 currentSegmentText := currentSegmentText r @ text\<rparr>;
          len = int (length (currentSegmentText r1))
      in if textCallbackCount r1 = 0 \<and> STREAMING_SYNTHETIC_FALLBACK_MIN_CHARS cfg \<le> len then
           (let firstPreviewLen = max 1 (min (STREAMING_SYNTHETIC_STEP_CHARS cfg) (len - 1));
                r2 = emit (TextEvent (take (nat firstPreviewLen) (currentSegmentText r1))
                             (currentSegmentId r1)) r1
            in tick (r2\<lparr>textCallbackCount := Suc (textCallbackCount r2),
                        lastEmittedTextLength := firstPreviewLen,
                        lastTextUpdate := readClock w r2\<rparr>))
         else
           (let t = readClock w r1;
                r2 = tick r1;
                shouldEmitText =
                  (textCallbackCount r2 = 0 \<or> STREAMING_THROTTLE_MS cfg \<le> t - lastTextUpdate r2)
            in if shouldEmitText then
                 (emit (TextEvent (currentSegmentText r2) (currentSegmentId r2)) r2)
                   \<lparr>lastTextUpdate := t, textCallbackCount := Suc (textCallbackCount r2),
                    lastEmittedTextLength := len\<rparr>
               else r2))"

function tailSteps :: "int \<Rightarrow> string \<Rightarrow> nat \<Rightarrow> int \<Rightarrow> run \<Rightarrow> run" where
  "tailSteps step fullText segmentId end r =
     (if 0 < step \<and> end < int (length fullText)
      then tailSteps step fullText segmentId (end + step)
             ((emit (TextEvent (take (nat end) fullText) segmentId) r)
                \<lparr>textCallbackCount := Suc (textCallbackCount r), lastEmittedTextLength := end\<rparr>)
      else r)"
  by pat_completeness auto
termination
  by (relation "measure (\<lambda>(step, fullText, segmentId, end, r). nat (int (length fullText) - end))")
    auto

declare tailSteps.simps [simp del]

definition emitProgressiveTail :: "config \<Rightarrow> string \<Rightarrow> nat \<Rightarrow> run \<Rightarrow> run" where
  "emitProgressiveTail cfg fullText segmentId r =
     (if int (length fullText) < STREAMING_SYNTHETIC_FALLBACK_MIN_CHARS cfg \<or>
         STREAMING_SYNTHETIC_STEP_CHARS cfg \<le> 0
      then r
      else tailSteps (STREAMING_SYNTHETIC_STEP_CHARS cfg) fullText segmentId
             (max (lastEmittedTextLength r + STREAMING_SYNTHETIC_STEP_CHARS cfg)
                (STREAMING_SYNTHETIC_STEP_CHARS cfg)) r)"

text \<open>The segment boundary before a tool event.\<close>

definition endSegmentForTool :: "run \<Rightarrow> run" where
  "endSegmentForTool r =
     (if currentSegmentText r \<noteq> [] then
        (emit (SegmentEnd (currentSegmentText r) (currentSegmentId r)) r)
          \<lparr>currentSegmentId := Suc (currentSegmentId r), currentSegmentText := []\<rparr>
      else r)"

text \<open>The final segment, after the loop.\<close>

definition emitFinalSegment :: "config \<Rightarrow> run \<Rightarrow> run" where
  "emitFinalSegment cfg r =
     (if currentSegmentText r \<noteq> [] then
        emit (SegmentEnd (currentSegmentText r) (currentSegmentId r))
          (emitProgressiveTail cfg (currentSegmentText r) (currentSegmentId r) r)
      else r)"

definition setTool :: "string \<Rightarrow> run \<Rightarrow> run" where
  "setTool toolDisplay r =
     r\<lparr>this := (this r)\<lparr>currentTool := Some toolDisplay, lastTool := Some toolDisplay\<rparr>\<rparr>"

subsection \<open>The Claude adapter\<close>

fun pollAskUser :: "world \<Rightarrow> nat \<Rightarrow> run \<Rightarrow> run" where
  "pollAskUser w 0 r = r"
| "pollAskUser w (Suc attemptsLeft) r =
     (let buttonsSent = checkPendingAskUserRequests w (polls r);
          r1 = r\<lparr>polls := Suc (polls r)\<rparr>
      in if buttonsSent then r1\<lparr>askUserTriggered := True\<rparr>
         else pollAskUser w attemptsLeft r1)"

definition isTmpRead :: "config \<Rightarrow> string \<Rightarrow> string \<Rightarrow> bool" where
  "isTmpRead cfg toolName filePath =
     (toolName = ''Read'' \<and>
      (list_ex (\<lambda>p. startsWith filePath p) (TEMP_PATHS cfg) \<or> includesStr filePath ''/.claude/''))"

text \<open>
  A tool-use block once its safety checks have passed: the open segment is closed, the
  tool is recorded and shown (not for the ask-user tool), and after the ask-user tool the
  pending requests are polled, at most three times.
\<close>

definition acceptToolUse :: "world \<Rightarrow> string \<Rightarrow> ToolInput \<Rightarrow> run \<Rightarrow> run" where
  "acceptToolUse w toolName toolInput r =
     (let toolDisplay = formatToolStatus w toolName toolInput;
          r1 = setTool toolDisplay (endSegmentForTool r);
          r2 = (if \<not> startsWith toolName ''mcp__ask-user'' then emit (ToolEvent toolDisplay) r1
                else r1)
      in if startsWith toolName ''mcp__ask-user'' \<and> ctxPresent w \<and>
            (case chatId w of None \<Rightarrow> False | Some n \<Rightarrow> n \<noteq> 0)
         then pollAskUser w 3 r2 else r2)"

definition toolUseBlock ::
  "config \<Rightarrow> world \<Rightarrow> string \<Rightarrow> ToolInput \<Rightarrow> run \<Rightarrow> flow \<times> run" where
  "toolUseBlock cfg w toolName toolInput r =
     (let cmd = orElse (tool_command toolInput) [];
          filePath = orElse (tool_file_path toolInput) []
      in if toolName = ''Bash'' \<and> \<not> fst (checkCommandSafety cfg cmd) then
           (Throw (errorText (''Unsafe command blocked: '' @ snd (checkCommandSafety cfg cmd))),
            emit (ToolEvent (''BLOCKED: '' @ snd (checkCommandSafety cfg cmd))) r)
         else if toolName \<in> set [''Read'', ''Write'', ''Edit''] \<and> filePath \<noteq> [] \<and>
                 \<not> isTmpRead cfg toolName filePath \<and> \<not> isPathAllowed cfg filePath then
           (Throw (errorText (''File access blocked: '' @ filePath)),
            emit (ToolEvent (''Access denied: '' @ filePath)) r)
         else (Continue, acceptToolUse w toolName toolInput r))"

fun processBlock :: "config \<Rightarrow> world \<Rightarrow> ContentBlock \<Rightarrow> run \<Rightarrow> flow \<times> run" where
  "processBlock cfg w (Thinking thinkingText) r =
     (Continue, if thinkingText \<noteq> [] then emit (ThinkingEvent thinkingText) r else r)"
| "processBlock cfg w (ToolUse toolName toolInput) r = toolUseBlock cfg w toolName toolInput r"
| "processBlock cfg w (Text text) r = (Continue, streamText cfg w text r)"
| "processBlock cfg w OtherBlock r = (Continue, r)"

fun processBlocks :: "config \<Rightarrow> world \<Rightarrow> ContentBlock list \<Rightarrow> run \<Rightarrow> flow \<times> run" where
  "processBlocks cfg w [] r = (Continue, r)"
| "processBlocks cfg w (block # blocks) r =
     (case processBlock cfg w block r of
        (Continue, r1) \<Rightarrow> processBlocks cfg w blocks r1
      | (other, r1) \<Rightarrow> (other, r1))"

definition captureSessionId :: "config \<Rightarrow> world \<Rightarrow> string option \<Rightarrow> run \<Rightarrow> run" where
  "captureSessionId cfg w eventId r =
     (if \<not> truthy (sessionId (this r)) \<and> truthy eventId
      then persist cfg w (r\<lparr>this := (this r)\<lparr>sessionId := eventId\<rparr>\<rparr>)
      else r)"

definition claudeEvent :: "config \<Rightarrow> world \<Rightarrow> SDKMessage \<Rightarrow> run \<Rightarrow> flow \<times> run" where
  "claudeEvent cfg w event r =
     (if stopRequested (this r) then (Break, r)
      else
        (let r1 = captureSessionId cfg w (eventSessionId event) r
         in case event of
              AssistantMessage sid blocks \<Rightarrow>
                (case processBlocks cfg w blocks r1 of
                   (Throw e, r2) \<Rightarrow> (Throw e, r2)
                 | (other, r2) \<Rightarrow> (if askUserTriggered r2 then Break else Continue, r2))
            | ResultMessage sid usage \<Rightarrow>
                (Continue,
                 (case usage of
                    None \<Rightarrow> r1
                  | Some u \<Rightarrow> r1\<lparr>this := (this r1)\<lparr>lastUsage := Some u\<rparr>\<rparr>)\<lparr>queryCompleted := True\<rparr>)
            | OtherMessage sid \<Rightarrow> (Continue, r1)))"

fun claudeLoop :: "config \<Rightarrow> world \<Rightarrow> SDKMessage StreamItem list \<Rightarrow> run \<Rightarrow> flow \<times> run" where
  "claudeLoop cfg w [] r = (Continue, r)"
| "claudeLoop cfg w (Yields event # items) r =
     (case claudeEvent cfg w event r of
        (Continue, r1) \<Rightarrow> claudeLoop cfg w items r1
      | (Break, r1) \<Rightarrow> closeStream items r1
      | (Throw e, r1) \<Rightarrow> (Throw e, r1))"
| "claudeLoop cfg w (Throws e # items) r = (Throw e, r)"
| "claudeLoop cfg w (StopCalled # items) r = claudeLoop cfg w items (r\<lparr>this := snd (stop (this r))\<rparr>)"

subsection \<open>Errors and the end of a turn\<close>

definition isCleanupError :: "string \<Rightarrow> bool" where
  "isCleanupError errorStr =
     (includesStr (toLowerCase errorStr) ''cancel'' \<or> includesStr (toLowerCase errorStr) ''abort'')"

definition recordError :: "world \<Rightarrow> string \<Rightarrow> run \<Rightarrow> run" where
  "recordError w e r =
     tick (r\<lparr>this := (this r)\<lparr>lastError := Some (take 100 e), lastErrorTime := Some (readClock w r)\<rparr>\<rparr>)"

text \<open>The \<open>finally\<close> block of both adapters.\<close>

definition finallyBlock :: "run \<Rightarrow> run" where
  "finallyBlock r =
     r\<lparr>this := (this r)\<lparr>isQueryRunning := False, abortController := None,
                         queryStarted := None, currentTool := None\<rparr>\<rparr>"

text \<open>
  The \<open>catch\<close> block of the Claude adapter, then \<open>finally\<close>: \<open>None\<close> when the loop ended
  without an exception or the exception is suppressed, \<open>Some e\<close> when it is thrown on.
\<close>

definition claudeCatch :: "world \<Rightarrow> flow \<times> run \<Rightarrow> string option \<times> run" where
  "claudeCatch w out =
     (case out of
        (Throw e, r) \<Rightarrow>
          if isCleanupError e \<and>
             (queryCompleted r \<or> askUserTriggered r \<or> stopRequested (this r))
          then (None, finallyBlock r)
          else (Some e, finallyBlock (recordError w e r))
      | (other, r) \<Rightarrow> (None, finallyBlock r))"

definition codexCatch :: "world \<Rightarrow> flow \<times> run \<Rightarrow> string option \<times> run" where
  "codexCatch w out =
     (case out of
        (Throw e, r) \<Rightarrow>
          if isCleanupError e \<and> stopRequested (this r)
          then (None, finallyBlock r)
          else (Some e, finallyBlock (recordError w e r))
      | (other, r) \<Rightarrow> (None, finallyBlock r))"

definition afterTurn :: "world \<Rightarrow> run \<Rightarrow> run" where
  "afterTurn w r =
     tick (r\<lparr>this := (this r)\<lparr>lastActivity := Some (readClock w r), lastError := None,
                               lastErrorTime := None\<rparr>\<rparr>)"

definition responseOr :: "string \<Rightarrow> run \<Rightarrow> string" where
  "responseOr fallback r =
     (if concat (responseParts r) \<noteq> [] then concat (responseParts r) else fallback)"

text \<open>
  The start of a turn, the same in both adapters but for the abort controller: a session
  id that is not usable is dropped; a stop requested while the message was being
  processed cancels the turn before it starts.
\<close>

definition dropUnusableId :: "session \<Rightarrow> session" where
  "dropUnusableId s = (if truthy (sessionId s) then s else s\<lparr>sessionId := None\<rparr>)"

definition startRun :: "world \<Rightarrow> bool option \<Rightarrow> session \<Rightarrow> SavedSession list \<Rightarrow> run" where
  "startRun w controller s hist =
     \<lparr> this = s\<lparr>abortController := controller, isQueryRunning := True, stopRequested := False,
                 queryStarted := Some (clock w 0), currentTool := None\<rparr>,
       sessionFile = hist, emitted = [], responseParts = [], currentSegmentId = 0,
       currentSegmentText = [], lastTextUpdate = 0, textCallbackCount = 0,
       lastEmittedTextLength = 0, queryCompleted = False, askUserTriggered = False,
       ticks = 1, polls = 0 \<rparr>"

definition cancelledRun :: "session \<Rightarrow> SavedSession list \<Rightarrow> run" where
  "cancelledRun s hist =
     \<lparr> this = s\<lparr>stopRequested := False\<rparr>,
       sessionFile = hist, emitted = [], responseParts = [], currentSegmentId = 0,
       currentSegmentText = [], lastTextUpdate = 0, textCallbackCount = 0,
       lastEmittedTextLength = 0, queryCompleted = False, askUserTriggered = False,
       ticks = 0, polls = 0 \<rparr>"

subsection \<open>The Codex adapter\<close>

definition commandExecution :: "config \<Rightarrow> world \<Rightarrow> string \<Rightarrow> run \<Rightarrow> flow \<times> run" where
  "commandExecution cfg w cmd r =
     (if \<not> fst (checkCommandSafety cfg cmd) then
        (Throw (errorText (''Unsafe command blocked: '' @ snd (checkCommandSafety cfg cmd))),
         emit (ToolEvent (''BLOCKED: '' @ snd (checkCommandSafety cfg cmd))) r)
      else
        (let toolDisplay = formatToolStatus w ''Bash'' \<lparr>tool_command = Some cmd, tool_file_path = None\<rparr>
         in (Continue, emit (ToolEvent toolDisplay) (setTool toolDisplay (endSegmentForTool r)))))"

fun codexItem :: "config \<Rightarrow> world \<Rightarrow> CodexItem \<Rightarrow> run \<Rightarrow> flow \<times> run" where
  "codexItem cfg w (Reasoning text) r =
     (Continue, if truthy text then emit (ThinkingEvent (the text)) r else r)"
| "codexItem cfg w (CommandExecution cmd) r = commandExecution cfg w (orElse cmd []) r"
| "codexItem cfg w (AgentMessage text) r =
     (Continue, if truthy text then streamText cfg w (the text) r else r)"
| "codexItem cfg w OtherItem r = (Continue, r)"

definition completeTurn :: "config \<Rightarrow> world \<Rightarrow> run \<Rightarrow> run" where
  "completeTurn cfg w r =
     (if truthy (threadId w)
      then persist cfg w (r\<lparr>this := (this r)\<lparr>sessionId := threadId w\<rparr>\<rparr>)
      else r)"

definition codexEvent :: "config \<Rightarrow> world \<Rightarrow> CodexEvent \<Rightarrow> run \<Rightarrow> flow \<times> run" where
  "codexEvent cfg w event r =
     (if stopRequested (this r) then (Break, r)
      else
        (case event of
           ErrorEvent message \<Rightarrow>
             (Throw (errorText (orElse message ''Unknown Codex stream error'')), r)
         | TurnFailed message \<Rightarrow> (Throw (errorText (orElse message ''Codex turn failed'')), r)
         | ItemCompleted None \<Rightarrow> (Continue, r)
         | ItemCompleted (Some item) \<Rightarrow> codexItem cfg w item r
         | TurnCompleted \<Rightarrow> (Break, completeTurn cfg w r)
         | OtherCodexEvent \<Rightarrow> (Continue, r)))"

fun codexLoop :: "config \<Rightarrow> world \<Rightarrow> CodexEvent StreamItem list \<Rightarrow> run \<Rightarrow> flow \<times> run" where
  "codexLoop cfg w [] r = (Continue, r)"
| "codexLoop cfg w (Yields event # items) r =
     (case codexEvent cfg w event r of
        (Continue, r1) \<Rightarrow> codexLoop cfg w items r1
      | (Break, r1) \<Rightarrow> closeStream items r1
      | (Throw e, r1) \<Rightarrow> (Throw e, r1))"
| "codexLoop cfg w (Throws e # items) r = (Throw e, r)"
| "codexLoop cfg w (StopCalled # items) r = codexLoop cfg w items (r\<lparr>this := snd (stop (this r))\<rparr>)"

text \<open>
  \<open>sendMessageStreamingCodex\<close>. The result is the error thrown to the caller (\<open>Inl\<close>) or
  the text returned (\<open>Inr\<close>), with the state the turn leaves.
\<close>

definition openThread :: "world \<Rightarrow> run \<Rightarrow> run" where
  "openThread w r =
     (if truthy (sessionId (this r)) \<and> resumeThreadThrows w
      then r\<lparr>this := (this r)\<lparr>sessionId := None\<rparr>\<rparr> else r)"

text \<open>The \<open>try\<close> block of the Codex turn: the thread is opened and its events are read.\<close>

definition codexTry ::
  "config \<Rightarrow> world \<Rightarrow> CodexEvent StreamItem list \<Rightarrow> session \<Rightarrow> SavedSession list \<Rightarrow>
     flow \<times> run" where
  "codexTry cfg w items s1 hist = codexLoop cfg w items (openThread w (startRun w None s1 hist))"

definition sendMessageStreamingCodex ::
  "config \<Rightarrow> world \<Rightarrow> CodexEvent StreamItem list \<Rightarrow> session \<Rightarrow> SavedSession list \<Rightarrow>
     (string + string) \<times> run" where
  "sendMessageStreamingCodex cfg w items s hist =
     (let s1 = dropUnusableId s
      in if stopRequested s1 then (Inl (errorText ''Query cancelled''), cancelledRun s1 hist)
         else
           (case codexCatch w (codexTry cfg w items s1 hist) of
              (Some e, r) \<Rightarrow> (Inl e, r)
            | (None, r) \<Rightarrow>
                (let r1 = emit Done (emitFinalSegment cfg (afterTurn w r))
                 in (Inr (responseOr ''No response from Codex.'' r1), r1))))"

text \<open>
  The \<open>try\<close> block of the Claude turn, and the Claude branch of
  \<open>sendMessageStreaming\<close>.
\<close>

definition claudeTry ::
  "config \<Rightarrow> world \<Rightarrow> SDKMessage StreamItem list \<Rightarrow> session \<Rightarrow> SavedSession list \<Rightarrow>
     flow \<times> run" where
  "claudeTry cfg w items s1 hist = claudeLoop cfg w items (startRun w (Some False) s1 hist)"

definition sendMessageStreamingClaude ::
  "config \<Rightarrow> world \<Rightarrow> SDKMessage StreamItem list \<Rightarrow> session \<Rightarrow> SavedSession list \<Rightarrow>
     (string + string) \<times> run" where
  "sendMessageStreamingClaude cfg w items s hist =
     (let s1 = dropUnusableId s
      in if stopRequested s1 then (Inl (errorText ''Query cancelled''), cancelledRun s1 hist)
         else
           (case claudeCatch w (claudeTry cfg w items s1 hist) of
              (Some e, r) \<Rightarrow> (Inl e, r)
            | (None, r) \<Rightarrow>
                (let r1 = afterTurn w r
                 in if askUserTriggered r1
                    then (Inr ''[Waiting for user selection]'', emit Done r1)
                    else
                      (let r2 = emit Done (emitFinalSegment cfg r1)
                       in (Inr (responseOr ''No response from Claude.'' r2), r2)))))"

text \<open>
  \<open>sendMessageStreaming\<close>: the Codex turn when the assistant is Codex, else the Claude
  turn. The two streams are both given; the assistant decides which one is read.
\<close>

definition sendMessageStreaming ::
  "config \<Rightarrow> world \<Rightarrow> SDKMessage StreamItem list \<Rightarrow> CodexEvent StreamItem list \<Rightarrow>
     session \<Rightarrow> SavedSession list \<Rightarrow> (string + string) \<times> run" where
  "sendMessageStreaming cfg w claudeItems codexItems s hist =
     (if assistantMode s = Codex then sendMessageStreamingCodex cfg w codexItems s hist
      else sendMessageStreamingClaude cfg w claudeItems s hist)"

definition exampleWorld :: world where
  "exampleWorld =
     \<lparr> clock = (\<lambda>n. 1000 + 100 * int n), checkPendingAskUserRequests = (\<lambda>n. True),
       formatToolStatus = (\<lambda>name input. name), ctxPresent = True, chatId = Some 7,
       threadId = Some ''thread-1'', resumeThreadThrows = False \<rparr>"

subsection \<open>Notions used in the properties of the turn runner\<close>

text \<open>Whether a \<open>done\<close> event has been emitted, and what the turn owes about it.\<close>

definition hasDone :: "run \<Rightarrow> bool" where
  "hasDone r = (Done \<in> set (emitted r))"

definition doneContract :: "(string + string) \<times> run \<Rightarrow> bool" where
  "doneContract out =
     (case out of
        (Inr text, r) \<Rightarrow> count_list (emitted r) Done = 1 \<and> last (emitted r) = Done
      | (Inl e, r) \<Rightarrow> count_list (emitted r) Done = 0)"

definition failingCodexStream :: "CodexEvent StreamItem list" where
  "failingCodexStream =
     [Yields (ItemCompleted (Some (AgentMessage (Some ''abc'')))),
      Yields (TurnFailed (Some ''boom''))]"

definition codexSession :: session where
  "codexSession = (newSession exampleConfig)\<lparr>assistantMode := Codex\<rparr>"

text \<open>Example sessions and streams.\<close>

definition processingSession :: session where
  "processingSession = startProcessing (newSession exampleConfig)"

definition abortedClaudeStream :: "SDKMessage StreamItem list" where
  "abortedClaudeStream =
     [Yields (AssistantMessage (Some ''sid1'') [Text ''Hi'']), StopCalled,
      Throws ''AbortError: The operation was aborted'']"

definition askUserThenUnsafeRm :: "SDKMessage StreamItem list" where
  "askUserThenUnsafeRm =
     [Yields (AssistantMessage None
        [ToolUse ''mcp__ask-user__ask_user'' \<lparr>tool_command = None, tool_file_path = None\<rparr>,
         ToolUse ''Bash'' \<lparr>tool_command = Some ''rm /etc/abort'', tool_file_path = None\<rparr>])]"

text \<open>
  A text event of a given segment; a state in which one segment, the first, holds all the
  text received and only its text events have been emitted; a small threshold and step.
\<close>

fun isTextOf :: "nat \<Rightarrow> StatusEvent \<Rightarrow> bool" where
  "isTextOf segmentId (TextEvent content n) = (n = segmentId)"
| "isTextOf segmentId other = False"

definition segmentOpen :: "string \<Rightarrow> run \<Rightarrow> bool" where
  "segmentOpen text r =
     (currentSegmentText r = text \<and> currentSegmentId r = 0 \<and> responseParts r = [text] \<and>
      \<not> askUserTriggered r \<and> list_all (isTextOf 0) (emitted r))"

definition snapshotConfig :: config where
  "snapshotConfig =
     exampleConfig\<lparr>STREAMING_SYNTHETIC_FALLBACK_MIN_CHARS := 5,
                    STREAMING_SYNTHETIC_STEP_CHARS := 3\<rparr>"

text \<open>What the end of a turn owes when one segment holds the whole text.\<close>

definition endsWithFullText :: "string \<Rightarrow> (string + string) \<times> run \<Rightarrow> bool" where
  "endsWithFullText text out =
     (fst out = Inr text \<and>
      last (emitted (snd out)) = Done \<and>
      last (butlast (emitted (snd out))) = SegmentEnd text 0 \<and>
      list_all (isTextOf 0) (butlast (butlast (emitted (snd out)))))"

text \<open>
  The two ends of an exception in a turn: swallowed, when the turn returns and no error is
  recorded; reported, when the exception is thrown to the caller with its first hundred
  characters and the time recorded. \<open>chatIdGiven\<close> is the test \<open>chatId\<close> of the ask-user
  poll: a chat id was passed and is not zero.
\<close>

definition swallowed :: "(string + string) \<times> run \<Rightarrow> bool" where
  "swallowed out =
     (\<not> isl (fst out) \<and> lastError (this (snd out)) = None \<and>
      lastErrorTime (this (snd out)) = None)"

definition reported :: "string \<Rightarrow> date \<Rightarrow> (string + string) \<times> run \<Rightarrow> bool" where
  "reported e t out =
     (fst out = Inl e \<and> lastError (this (snd out)) = Some (take 100 e) \<and>
      lastErrorTime (this (snd out)) = Some t)"

definition chatIdGiven :: "world \<Rightarrow> bool" where
  "chatIdGiven w = (case chatId w of None \<Rightarrow> False | Some n \<Rightarrow> n \<noteq> 0)"

text \<open>Streams and texts for the examples.\<close>

definition greetingStream :: "SDKMessage StreamItem list" where
  "greetingStream = [Yields (AssistantMessage (Some ''sid1'') [Text ''Hi''])]"

definition answerStream :: "CodexEvent StreamItem list" where
  "answerStream = [Yields (ItemCompleted (Some (AgentMessage (Some ''abc''))))]"

definition abortText :: string where
  "abortText = ''AbortError: The operation was aborted''"

definition askUserInput :: ToolInput where
  "askUserInput = \<lparr>tool_command = None, tool_file_path = None\<rparr>"

text \<open>While the loop runs, the query is marked as running, so \<open>stop()\<close> sets the flag.\<close>

definition running :: "run \<Rightarrow> bool" where
  "running r = isQueryRunning (this r)"

section \<open>Properties of model selection\<close>

lemma applySelection_frame:
  assumes "applySelection cfg selection s = Some s1"
  shows "s1 = s\<lparr>assistantMode := assistantMode s1, claudeModel := claudeModel s1,
                 codexModel := codexModel s1, codexEffort := codexEffort s1\<rparr>"
    and "assistantMode s1 = Claude \<Longrightarrow>
           codexModel s1 = codexModel s \<and> codexEffort s1 = codexEffort s"
    and "assistantMode s1 = Codex \<Longrightarrow> claudeModel s1 = claudeModel s"
    and "claudeEffort s1 = claudeEffort s"
  using assms
  by (auto simp: applySelection_def Let_def split: option.splits if_splits prod.splits)

lemma applySelection_unchanged:
  assumes "applySelection cfg selection s = Some s1"
    and "assistantMode s = assistantMode s1" and "model s = model s1"
    and "codexEffort s = codexEffort s1"
  shows "s1 = s"
proof -
  have m: "claudeModel s1 = claudeModel s \<and> codexModel s1 = codexModel s"
    using assms applySelection_frame(2,3)[OF assms(1)]
    by (cases "assistantMode s1") (auto simp: model_def)
  have "s1 = s\<lparr>assistantMode := assistantMode s, claudeModel := claudeModel s,
                 codexModel := codexModel s, codexEffort := codexEffort s\<rparr>"
    using applySelection_frame(1)[OF assms(1)] m assms(2,4) by simp
  then show ?thesis by simp
qed

lemma activeConfig_changed_iff:
  assumes "applySelection cfg selection s = Some s1"
  shows "(activeConfig s1 \<noteq> activeConfig s) =
         (assistantMode s \<noteq> assistantMode s1 \<or> model s \<noteq> model s1 \<or>
          codexEffort s \<noteq> codexEffort s1)"
  using applySelection_frame(2,4)[OF assms]
  by (cases "assistantMode s1"; cases "assistantMode s") (auto simp: activeConfig_def)

lemma activeConfig_resetSession [simp]: "activeConfig (resetSession s) = activeConfig s"
  by (simp add: activeConfig_def resetSession_def model_def)

text \<open>
  C3. \<open>setModel\<close> clears the session id and resets \<open>lastActivity\<close>, \<open>queryStarted\<close>,
  \<open>currentTool\<close>, \<open>lastTool\<close>, \<open>lastUsage\<close>, \<open>lastError\<close> and \<open>lastErrorTime\<close> exactly
  when the call changes the active assistant, model or effort. When the active
  configuration is the same after the call, no field of the session has changed, and a
  selection that parses to it is answered with success and the unchanged message.
\<close>

theorem setModel_resets_iff_changed:
  assumes "setModel cfg selectionRaw s = (ok, msg, s')"
  shows "(activeConfig s' \<noteq> activeConfig s \<longrightarrow>
            ok \<and> sessionId s' = None \<and> lastActivity s' = None \<and> queryStarted s' = None \<and>
            currentTool s' = None \<and> lastTool s' = None \<and> lastUsage s' = None \<and>
            lastError s' = None \<and> lastErrorTime s' = None)
       \<and> (activeConfig s' = activeConfig s \<longrightarrow> s' = s)
       \<and> (activeConfig s' = activeConfig s \<and> trim selectionRaw \<noteq> [] \<and>
            applySelection cfg (trim selectionRaw) s \<noteq> None \<longrightarrow>
            ok \<and> msg = unchangedMessage s)"
proof (cases "trim selectionRaw = []")
  case True
  with assms show ?thesis by (simp add: setModel_def)
next
  case ne: False
  show ?thesis
  proof (cases "applySelection cfg (trim selectionRaw) s")
    case None
    with assms ne show ?thesis by (simp add: setModel_def)
  next
    case (Some s1)
    note ch = activeConfig_changed_iff[OF Some]
    show ?thesis
    proof (cases "activeConfig s1 = activeConfig s")
      case True
      then have "s1 = s" using applySelection_unchanged[OF Some] ch by blast
      with assms ne Some True ch show ?thesis by (auto simp: setModel_def Let_def)
    next
      case False
      with assms ne Some ch have "s' = resetSession s1" "ok"
        by (auto simp: setModel_def Let_def)
      moreover have "activeConfig (resetSession s1) \<noteq> activeConfig s"
        using False by simp
      moreover have "sessionId (resetSession s1) = None \<and> lastActivity (resetSession s1) = None \<and>
          queryStarted (resetSession s1) = None \<and> currentTool (resetSession s1) = None \<and>
          lastTool (resetSession s1) = None \<and> lastUsage (resetSession s1) = None \<and>
          lastError (resetSession s1) = None \<and> lastErrorTime (resetSession s1) = None"
        by (simp add: resetSession_def)
      ultimately show ?thesis by simp
    qed
  qed
qed

theorem setModel_resets_iff_changed_witness:
  "setModel exampleConfig ''codex 5.3 high'' activeSession =
     (True, ''Model switched to codex 5.3 high (CODEX). Started a fresh session.'',
      (newSession exampleConfig)\<lparr>assistantMode := Codex, codexEffort := High\<rparr>)
   \<and> activeConfig ((newSession exampleConfig)\<lparr>assistantMode := Codex, codexEffort := High\<rparr>)
       \<noteq> activeConfig activeSession
   \<and> sessionId ((newSession exampleConfig)\<lparr>assistantMode := Codex, codexEffort := High\<rparr>) = None
   \<and> setModel exampleConfig ''opus 4.6'' activeSession =
     (True, ''Model unchanged: opus 4.6 (CLAUDE)'', activeSession)"
proof -
  have a: "setModel exampleConfig ''codex 5.3 high'' activeSession =
     (True, ''Model switched to codex 5.3 high (CODEX). Started a fresh session.'',
      (newSession exampleConfig)\<lparr>assistantMode := Codex, codexEffort := High\<rparr>)"
    by code_simp
  have b: "setModel exampleConfig ''opus 4.6'' activeSession =
     (True, ''Model unchanged: opus 4.6 (CLAUDE)'', activeSession)"
    by code_simp
  have c: "activeConfig ((newSession exampleConfig)\<lparr>assistantMode := Codex, codexEffort := High\<rparr>)
       \<noteq> activeConfig activeSession"
    by code_simp
  from setModel_resets_iff_changed[OF a] c a b show ?thesis by blast
qed

text \<open>
  C6, as stated, fails: \<open>claude-haiku\<close> is not empty, is no Codex preset, no Claude
  alias and no bare keyword, and \<open>setModel\<close> rejects it, leaving the session as it was.
\<close>

theorem setModel_literal_fallback_counterexample:
  "trim ''claude-haiku'' \<noteq> [] \<and>
   parseCodexPreset (CODEX_MODEL exampleConfig) ''claude-haiku'' = None \<and>
   parseClaudeAlias ''claude-haiku'' = None \<and>
   toLowerCase ''claude-haiku'' \<noteq> ''claude'' \<and>
   toLowerCase ''claude-haiku'' \<noteq> ''codex'' \<and>
   setModel exampleConfig ''claude-haiku'' activeSession =
     (False, claudeModelsMessage, activeSession)"
  by code_simp

text \<open>
  C6, amended. A selection that is not empty once trimmed, is no Codex preset, no Claude
  alias and no bare keyword: if its lower-case form does not start with \<open>claude\<close>, it is
  accepted, the assistant becomes Codex and the trimmed text, as it was typed, becomes the
  Codex model, and the Codex effort stays; if it does, it is rejected with the list of the
  Claude models and the session is left as it was.
\<close>

theorem setModel_literal_fallback:
  assumes "trim selectionRaw \<noteq> []"
    and "parseCodexPreset (CODEX_MODEL cfg) (trim selectionRaw) = None"
    and "parseClaudeAlias (trim selectionRaw) = None"
    and "toLowerCase (trim selectionRaw) \<noteq> ''claude''"
    and "toLowerCase (trim selectionRaw) \<noteq> ''codex''"
  shows "(\<not> startsWith (toLowerCase (trim selectionRaw)) ''claude'' \<longrightarrow>
            fst (setModel cfg selectionRaw s) = True \<and>
            assistantMode (snd (snd (setModel cfg selectionRaw s))) = Codex \<and>
            codexModel (snd (snd (setModel cfg selectionRaw s))) = trim selectionRaw \<and>
            codexEffort (snd (snd (setModel cfg selectionRaw s))) = codexEffort s) \<and>
         (startsWith (toLowerCase (trim selectionRaw)) ''claude'' \<longrightarrow>
            setModel cfg selectionRaw s = (False, claudeModelsMessage, s))"
  using assms
  by (simp add: setModel_def applySelection_def Let_def resetSession_def)

theorem setModel_literal_fallback_witness:
  "fst (setModel exampleConfig '' o3 '' activeSession) = True \<and>
   assistantMode (snd (snd (setModel exampleConfig '' o3 '' activeSession))) = Codex \<and>
   codexModel (snd (snd (setModel exampleConfig '' o3 '' activeSession))) = ''o3'' \<and>
   codexEffort (snd (snd (setModel exampleConfig '' o3 '' activeSession))) = Medium \<and>
   setModel exampleConfig ''Claude-3'' activeSession = (False, claudeModelsMessage, activeSession)"
proof -
  have h: "trim '' o3 '' \<noteq> []"
    "parseCodexPreset (CODEX_MODEL exampleConfig) (trim '' o3 '') = None"
    "parseClaudeAlias (trim '' o3 '') = None"
    "toLowerCase (trim '' o3 '') \<noteq> ''claude''"
    "toLowerCase (trim '' o3 '') \<noteq> ''codex''"
    by code_simp+
  have n: "\<not> startsWith (toLowerCase (trim '' o3 '')) ''claude''" by code_simp
  have t: "trim '' o3 '' = ''o3''" "codexEffort activeSession = Medium" by code_simp+
  have k: "trim ''Claude-3'' \<noteq> []"
    "parseCodexPreset (CODEX_MODEL exampleConfig) (trim ''Claude-3'') = None"
    "parseClaudeAlias (trim ''Claude-3'') = None"
    "toLowerCase (trim ''Claude-3'') \<noteq> ''claude''"
    "toLowerCase (trim ''Claude-3'') \<noteq> ''codex''"
    by code_simp+
  have c: "startsWith (toLowerCase (trim ''Claude-3'')) ''claude''" by code_simp
  from setModel_literal_fallback[OF h, of activeSession] n t
    setModel_literal_fallback[OF k, of activeSession] c
  show ?thesis by simp
qed

section \<open>Properties of the saved sessions\<close>

lemma findIndex_Some:
  "findIndex P xs = Some i \<Longrightarrow> i < length xs \<and> P (xs ! i)"
proof (induction xs arbitrary: i)
  case Nil
  then show ?case by simp
next
  case (Cons x xs)
  then show ?case by (cases "P x") auto
qed

lemma findIndex_None: "findIndex P xs = None \<Longrightarrow> \<forall>x \<in> set xs. \<not> P x"
  by (induction xs) (auto split: if_splits)

lemma session_id_makeSavedSession [simp]: "session_id (makeSavedSession cfg now sid s) = sid"
  by (simp add: makeSavedSession_def)

lemma saveSession_replace:
  assumes "truthy (sessionId s)"
    and "findIndex (\<lambda>e. session_id e = the (sessionId s)) h = Some i"
  shows "saveSession cfg now s h =
           take MAX_SESSIONS (h[i := makeSavedSession cfg now (the (sessionId s)) s])"
  using assms by (simp add: saveSession_def Let_def)

lemma saveSession_insert:
  assumes "truthy (sessionId s)"
    and "findIndex (\<lambda>e. session_id e = the (sessionId s)) h = None"
  shows "saveSession cfg now s h =
           take MAX_SESSIONS (makeSavedSession cfg now (the (sessionId s)) s # h)"
  using assms by (simp add: saveSession_def Let_def)

lemma saveSession_invariant:
  assumes "distinct (map session_id h)" and "length h \<le> MAX_SESSIONS"
  shows "distinct (map session_id (saveSession cfg now s h)) \<and>
         length (saveSession cfg now s h) \<le> MAX_SESSIONS"
proof (cases "truthy (sessionId s)")
  case False
  with assms show ?thesis by (simp add: saveSession_def)
next
  case True
  let ?sid = "the (sessionId s)"
  let ?new = "makeSavedSession cfg now ?sid s"
  show ?thesis
  proof (cases "findIndex (\<lambda>e. session_id e = ?sid) h")
    case None
    then have "?sid \<notin> set (map session_id h)"
      using findIndex_None[OF None] by auto
    with assms(1) have d: "distinct (map session_id (?new # h))" by simp
    have "distinct (map session_id (take MAX_SESSIONS (?new # h)))"
      using distinct_take[OF d, of MAX_SESSIONS] by (simp only: take_map)
    moreover have "length (take MAX_SESSIONS (?new # h)) \<le> MAX_SESSIONS" by simp
    ultimately show ?thesis
      by (simp only: saveSession_insert[OF True None])
  next
    case (Some i)
    from findIndex_Some[OF Some] have i: "i < length h" "session_id (h ! i) = ?sid" by auto
    have "map session_id (h[i := ?new]) = (map session_id h)[i := ?sid]"
      by (simp add: map_update)
    also have "\<dots> = map session_id h"
      using i by (metis list_update_id nth_map)
    finally have "map session_id (h[i := ?new]) = map session_id h" .
    with assms show ?thesis
      using saveSession_replace[OF True Some] by (simp add: take_map)
  qed
qed

lemma persistAll_invariant:
  assumes "distinct (map session_id h)" and "length h \<le> MAX_SESSIONS"
  shows "distinct (map session_id (persistAll cfg calls h)) \<and>
         length (persistAll cfg calls h) \<le> MAX_SESSIONS"
  using assms
proof (induction calls arbitrary: h)
  case Nil
  then show ?case by (simp add: persistAll_def)
next
  case (Cons c calls)
  obtain now s where c: "c = (now, s)" by (cases c)
  have "persistAll cfg (c # calls) h = persistAll cfg calls (saveSession cfg now s h)"
    by (simp add: persistAll_def c)
  with Cons.IH[of "saveSession cfg now s h"] saveSession_invariant[OF Cons.prems]
  show ?case by simp
qed

text \<open>
  C8. Starting from a history with distinct ids and at most five entries (the empty
  history of a fresh installation is one), any sequence of \<open>saveSession\<close> calls leaves a
  history of at most five entries with distinct ids. One call replaces the entry of an
  id that is present at its position, and puts the entry of a new id at the front, then
  keeps the first five.
\<close>

theorem persist_history_bounded_distinct:
  assumes "distinct (map session_id h)" and "length h \<le> 5"
  shows "length (persistAll cfg calls h) \<le> 5 \<and>
         distinct (map session_id (persistAll cfg calls h)) \<and>
         (\<forall>now s i. truthy (sessionId s) \<and>
              findIndex (\<lambda>e. session_id e = the (sessionId s)) h = Some i \<longrightarrow>
              saveSession cfg now s h = h[i := makeSavedSession cfg now (the (sessionId s)) s]) \<and>
         (\<forall>now s. truthy (sessionId s) \<and>
              findIndex (\<lambda>e. session_id e = the (sessionId s)) h = None \<longrightarrow>
              saveSession cfg now s h =
                take 5 (makeSavedSession cfg now (the (sessionId s)) s # h))"
  using persistAll_invariant[of h cfg calls] assms saveSession_replace[of _ h _ cfg]
    saveSession_insert[of _ h cfg]
  by (simp add: MAX_SESSIONS_def)

theorem persist_history_bounded_distinct_witness:
  "distinct (map session_id exampleHistory) \<and> length exampleHistory \<le> 5 \<and>
   length (persistAll exampleConfig [(20, activeSession), (30, activeSession\<lparr>sessionId := Some ''new''\<rparr>)]
      exampleHistory) \<le> 5 \<and>
   saveSession exampleConfig 20 activeSession exampleHistory =
     exampleHistory[0 := makeSavedSession exampleConfig 20 ''abc'' activeSession]"
proof -
  have h: "distinct (map session_id exampleHistory)" "length exampleHistory \<le> 5"
    by code_simp+
  have f: "truthy (sessionId activeSession)"
    "findIndex (\<lambda>e. session_id e = the (sessionId activeSession)) exampleHistory = Some 0"
    "the (sessionId activeSession) = ''abc''"
    by code_simp+
  from persist_history_bounded_distinct[OF h, of exampleConfig
      "[(20, activeSession), (30, activeSession\<lparr>sessionId := Some ''new''\<rparr>)]"] h f
  show ?thesis by simp
qed

lemma find_session_id:
  "find (\<lambda>e. session_id e = sid) history = Some e \<Longrightarrow> session_id e = sid"
  by (induction history) (auto split: if_splits)

lemma restoreSession_flags:
  "isQueryRunning (restoreSession now e s) = isQueryRunning s \<and>
   isProcessing (restoreSession now e s) = isProcessing s \<and>
   stopRequested (restoreSession now e s) = stopRequested s \<and>
   abortController (restoreSession now e s) = abortController s"
  by (simp add: restoreSession_def Let_def split: option.splits)

lemma restoreSession_identity:
  "sessionId (restoreSession now e s) = Some (session_id e) \<and>
   conversationTitle (restoreSession now e s) = Some (title e) \<and>
   lastActivity (restoreSession now e s) = Some now"
  by (simp add: restoreSession_def Let_def split: option.splits)

lemma restoreSession_saved:
  assumes "model s0 \<noteq> []"
  shows "assistantMode (restoreSession now (makeSavedSession cfg t sid s0) s) = assistantMode s0 \<and>
         model (restoreSession now (makeSavedSession cfg t sid s0) s) = model s0 \<and>
         (assistantMode s0 = Codex \<longrightarrow>
            codexEffort (restoreSession now (makeSavedSession cfg t sid s0) s) = codexEffort s0)"
  using assms
  by (cases "assistantMode s0") (simp_all add: restoreSession_def makeSavedSession_def model_def Let_def)

lemma wrongDirectory_not_notFound: "wrongDirectoryMessage dir \<noteq> notFoundMessage"
  by (simp add: wrongDirectoryMessage_def notFoundMessage_def)

text \<open>
  C7. \<open>resumeSession\<close> fails with the not-found message when no entry has the id; it fails
  with the wrong-directory message, which is never the not-found message, when the entry
  found has a working directory that is not the current one; both failures return the
  session as it was. On success the session id, the title and \<open>lastActivity\<close> are set from
  the entry and the clock, the running flags are untouched, and for an entry written by
  \<open>saveSession\<close> the assistant, the model and the Codex effort are those that were saved.
\<close>

theorem resumeSession_contract:
  "(find (\<lambda>e. session_id e = sid) history = None \<longrightarrow>
      resumeSession cfg now sid history s = (False, notFoundMessage, s))
   \<and> (\<forall>e. find (\<lambda>e. session_id e = sid) history = Some e \<and>
          truthy (working_dir e) \<and> the (working_dir e) \<noteq> WORKING_DIR cfg \<longrightarrow>
          resumeSession cfg now sid history s =
            (False, wrongDirectoryMessage (the (working_dir e)), s) \<and>
          wrongDirectoryMessage (the (working_dir e)) \<noteq> notFoundMessage)
   \<and> (\<forall>e. find (\<lambda>e. session_id e = sid) history = Some e \<and>
          \<not> (truthy (working_dir e) \<and> the (working_dir e) \<noteq> WORKING_DIR cfg) \<longrightarrow>
          fst (resumeSession cfg now sid history s) = True \<and>
          snd (snd (resumeSession cfg now sid history s)) = restoreSession now e s \<and>
          sessionId (restoreSession now e s) = Some sid \<and>
          conversationTitle (restoreSession now e s) = Some (title e) \<and>
          lastActivity (restoreSession now e s) = Some now \<and>
          isQueryRunning (restoreSession now e s) = isQueryRunning s \<and>
          isProcessing (restoreSession now e s) = isProcessing s \<and>
          stopRequested (restoreSession now e s) = stopRequested s \<and>
          (\<forall>t s0. e = makeSavedSession cfg t sid s0 \<and> model s0 \<noteq> [] \<longrightarrow>
             assistantMode (restoreSession now e s) = assistantMode s0 \<and>
             model (restoreSession now e s) = model s0 \<and>
             (assistantMode s0 = Codex \<longrightarrow>
                codexEffort (restoreSession now e s) = codexEffort s0)))"
proof (intro conjI allI impI)
  assume "find (\<lambda>e. session_id e = sid) history = None"
  then show "resumeSession cfg now sid history s = (False, notFoundMessage, s)"
    by (simp add: resumeSession_def)
next
  fix e
  assume "find (\<lambda>e. session_id e = sid) history = Some e \<and>
          truthy (working_dir e) \<and> the (working_dir e) \<noteq> WORKING_DIR cfg"
  then show "resumeSession cfg now sid history s =
            (False, wrongDirectoryMessage (the (working_dir e)), s)"
    by (simp add: resumeSession_def)
next
  fix e :: SavedSession
  show "wrongDirectoryMessage (the (working_dir e)) \<noteq> notFoundMessage"
    by (rule wrongDirectory_not_notFound)
next
  fix e
  assume a: "find (\<lambda>e. session_id e = sid) history = Some e \<and>
          \<not> (truthy (working_dir e) \<and> the (working_dir e) \<noteq> WORKING_DIR cfg)"
  then show "fst (resumeSession cfg now sid history s) = True"
    and "snd (snd (resumeSession cfg now sid history s)) = restoreSession now e s"
    by (auto simp: resumeSession_def)
  from a show "sessionId (restoreSession now e s) = Some sid"
    using find_session_id[of sid history e] restoreSession_identity[of now e s] by simp
next
  fix e
  show "conversationTitle (restoreSession now e s) = Some (title e)"
    and "lastActivity (restoreSession now e s) = Some now"
    and "isQueryRunning (restoreSession now e s) = isQueryRunning s"
    and "isProcessing (restoreSession now e s) = isProcessing s"
    and "stopRequested (restoreSession now e s) = stopRequested s"
    using restoreSession_identity[of now e s] restoreSession_flags[of now e s] by simp_all
next
  fix e t s0
  assume "e = makeSavedSession cfg t sid s0 \<and> model s0 \<noteq> []"
  then show "assistantMode (restoreSession now e s) = assistantMode s0"
    and "model (restoreSession now e s) = model s0"
    using restoreSession_saved[of s0 now cfg t sid s] by simp_all
next
  fix e t s0
  assume "e = makeSavedSession cfg t sid s0 \<and> model s0 \<noteq> []" "assistantMode s0 = Codex"
  then show "codexEffort (restoreSession now e s) = codexEffort s0"
    using restoreSession_saved[of s0 now cfg t sid s] by simp
qed

theorem resumeSession_contract_witness:
  "resumeSession exampleConfig 42 ''zzz'' exampleHistory activeSession =
     (False, notFoundMessage, activeSession) \<and>
   resumeSession exampleConfig 42 ''old'' exampleHistory activeSession =
     (False, wrongDirectoryMessage ''/srv'', activeSession) \<and>
   wrongDirectoryMessage ''/srv'' \<noteq> notFoundMessage \<and>
   fst (resumeSession exampleConfig 42 ''abc'' exampleHistory (newSession exampleConfig)) = True \<and>
   sessionId (restoreSession 42 (makeSavedSession exampleConfig 10 ''abc'' activeSession)
      (newSession exampleConfig)) = Some ''abc'' \<and>
   lastActivity (restoreSession 42 (makeSavedSession exampleConfig 10 ''abc'' activeSession)
      (newSession exampleConfig)) = Some 42"
proof -
  let ?old = "(makeSavedSession exampleConfig 5 ''old'' activeSession)\<lparr>working_dir := Some ''/srv''\<rparr>"
  let ?abc = "makeSavedSession exampleConfig 10 ''abc'' activeSession"
  have n: "find (\<lambda>e. session_id e = ''zzz'') exampleHistory = None" by code_simp
  have w: "find (\<lambda>e. session_id e = ''old'') exampleHistory = Some ?old \<and>
           truthy (working_dir ?old) \<and> the (working_dir ?old) \<noteq> WORKING_DIR exampleConfig"
    by code_simp
  have wd: "the (working_dir ?old) = ''/srv''" by simp
  have g: "find (\<lambda>e. session_id e = ''abc'') exampleHistory = Some ?abc \<and>
           \<not> (truthy (working_dir ?abc) \<and> the (working_dir ?abc) \<noteq> WORKING_DIR exampleConfig)"
    by code_simp
  from resumeSession_contract[of "''zzz''" exampleHistory exampleConfig 42 activeSession] n
  have 1: "resumeSession exampleConfig 42 ''zzz'' exampleHistory activeSession =
     (False, notFoundMessage, activeSession)" by blast
  from resumeSession_contract[of "''old''" exampleHistory exampleConfig 42 activeSession] w
  have 2: "resumeSession exampleConfig 42 ''old'' exampleHistory activeSession =
            (False, wrongDirectoryMessage (the (working_dir ?old)), activeSession) \<and>
          wrongDirectoryMessage (the (working_dir ?old)) \<noteq> notFoundMessage" by blast
  from resumeSession_contract[of "''abc''" exampleHistory exampleConfig 42 "newSession exampleConfig"] g
  have 3: "fst (resumeSession exampleConfig 42 ''abc'' exampleHistory (newSession exampleConfig)) = True \<and>
          sessionId (restoreSession 42 ?abc (newSession exampleConfig)) = Some ''abc'' \<and>
          lastActivity (restoreSession 42 ?abc (newSession exampleConfig)) = Some 42" by blast
  from 1 2 3 wd show ?thesis by simp
qed

section \<open>Properties of the safety policy\<close>

lemma resolvedPath_ALLOWED_PATHS [simp]:
  "resolvedPath (cfg\<lparr>ALLOWED_PATHS := allowed\<rparr>) path = resolvedPath cfg path"
  by (simp add: resolvedPath_def expandUserPath_def Let_def split: option.split)

lemma TEMP_PATHS_ALLOWED_PATHS [simp]:
  "TEMP_PATHS (cfg\<lparr>ALLOWED_PATHS := allowed\<rparr>) = TEMP_PATHS cfg"
  by (simp add: TEMP_PATHS_def)

lemma inTempPath_allowed: "inTempPath cfg path \<Longrightarrow> isPathAllowed (cfg\<lparr>ALLOWED_PATHS := allowed\<rparr>) path"
  by (simp add: inTempPath_def isPathAllowed_def Let_def)

lemma checkRmArgs_None_iff:
  "(checkRmArgs cfg args = None) =
   (\<forall>arg \<in> set (filter (\<lambda>arg. \<not> (arg = [] \<or> startsWith arg ''-'')) (map stripWrappingQuotes args)).
      isPathAllowed cfg arg)"
  by (induction args) (auto simp: Let_def)

lemma checkSegments_None_iff:
  "(checkSegments cfg segments = None) =
   (\<forall>arg \<in> set (concat (map (\<lambda>segment. checkedAfterRm (tokens segment)) segments)).
      isPathAllowed cfg arg)"
proof (induction segments)
  case Nil
  then show ?case by simp
next
  case (Cons segment segments)
  show ?case
  proof (cases "findIndex (\<lambda>token. isRmToken (stripWrappingQuotes token)) (tokens segment)")
    case None
    with Cons.IH show ?thesis by (simp add: Let_def checkedAfterRm_def)
  next
    case (Some rmIndex)
    have "(checkSegments cfg (segment # segments) = None) =
          (checkRmArgs cfg (drop (rmIndex + 1) (tokens segment)) = None \<and>
           checkSegments cfg segments = None)"
      using Some by (simp add: Let_def split: option.split)
    also have "\<dots> =
          ((\<forall>arg \<in> set (checkedAfterRm (tokens segment)). isPathAllowed cfg arg) \<and>
           checkSegments cfg segments = None)"
      using Some by (simp add: checkRmArgs_None_iff checkedAfterRm_def)
    finally show ?thesis using Cons.IH by auto
  qed
qed

lemma checkCommandSafety_accepts_iff:
  "fst (checkCommandSafety cfg command) =
     (noBlockedPattern command \<and>
      (mentionsRm command \<longrightarrow> (\<forall>arg \<in> set (checkedTokens command). isPathAllowed cfg arg)))"
proof (cases "noBlockedPattern command")
  case False
  then show ?thesis
    by (auto simp: checkCommandSafety_def noBlockedPattern_def Let_def)
next
  case True
  show ?thesis
  proof (cases "mentionsRm command")
    case False
    with True show ?thesis by (simp add: checkCommandSafety_def noBlockedPattern_def Let_def)
  next
    case rm: True
    have "fst (checkCommandSafety cfg command) =
            (checkSegments cfg (splitSegments [] command) = None)"
      using True rm
      by (simp add: checkCommandSafety_def noBlockedPattern_def Let_def split: option.split)
    with True rm show ?thesis by (simp add: checkSegments_None_iff checkedTokens_def)
  qed
qed

lemma checkCommandSafety_accepted_result:
  "fst (checkCommandSafety cfg command) \<Longrightarrow> checkCommandSafety cfg command = (True, [])"
  by (auto simp: checkCommandSafety_def Let_def split: option.splits if_splits)

text \<open>
  C10, amended. A path whose resolved form starts with a temp prefix is allowed whatever
  the list of allowed paths is; \<open>isPathAllowed\<close> has no notion of the operation.
  \<open>checkCommandSafety\<close> accepts a command exactly when no blocked pattern occurs in it and,
  if it mentions \<open>rm\<close>, every token that the \<open>rm\<close> check tests is an allowed path: in each
  shell segment, every token after \<open>rm\<close> that is not empty and does not start with a dash,
  be it a file operand or not. So a command without a blocked pattern, all of whose tested
  tokens resolve into the temp directories, is accepted whatever the allowed paths are.
\<close>

theorem temp_paths_always_allowed:
  "(inTempPath cfg path \<longrightarrow> isPathAllowed (cfg\<lparr>ALLOWED_PATHS := allowed\<rparr>) path) \<and>
   ((checkCommandSafety cfg command = (True, [])) =
      (noBlockedPattern command \<and>
       (mentionsRm command \<longrightarrow>
          (\<forall>arg \<in> set (checkedTokens command). isPathAllowed cfg arg)))) \<and>
   (noBlockedPattern command \<and> (\<forall>arg \<in> set (checkedTokens command). inTempPath cfg arg) \<longrightarrow>
      checkCommandSafety (cfg\<lparr>ALLOWED_PATHS := allowed\<rparr>) command = (True, []))"
proof (intro conjI impI)
  assume "inTempPath cfg path"
  then show "isPathAllowed (cfg\<lparr>ALLOWED_PATHS := allowed\<rparr>) path" by (rule inTempPath_allowed)
next
  show "(checkCommandSafety cfg command = (True, [])) =
      (noBlockedPattern command \<and>
       (mentionsRm command \<longrightarrow>
          (\<forall>arg \<in> set (checkedTokens command). isPathAllowed cfg arg)))"
    using checkCommandSafety_accepts_iff[of cfg command]
      checkCommandSafety_accepted_result[of cfg command]
    by (metis fst_conv)
next
  assume a: "noBlockedPattern command \<and> (\<forall>arg \<in> set (checkedTokens command). inTempPath cfg arg)"
  then have "\<forall>arg \<in> set (checkedTokens command). isPathAllowed (cfg\<lparr>ALLOWED_PATHS := allowed\<rparr>) arg"
    using inTempPath_allowed by blast
  with a have "fst (checkCommandSafety (cfg\<lparr>ALLOWED_PATHS := allowed\<rparr>) command)"
    by (simp add: checkCommandSafety_accepts_iff)
  then show "checkCommandSafety (cfg\<lparr>ALLOWED_PATHS := allowed\<rparr>) command = (True, [])"
    by (rule checkCommandSafety_accepted_result)
qed

theorem temp_paths_always_allowed_witness:
  "inTempPath exampleConfig ''/tmp/x'' \<and>
   isPathAllowed (exampleConfig\<lparr>ALLOWED_PATHS := []\<rparr>) ''/tmp/x'' \<and>
   noBlockedPattern ''rm -f /tmp/x'' \<and> checkedTokens ''rm -f /tmp/x'' = [''/tmp/x''] \<and>
   checkCommandSafety (exampleConfig\<lparr>ALLOWED_PATHS := []\<rparr>) ''rm -f /tmp/x'' = (True, []) \<and>
   noBlockedPattern ''rm -f /tmp/x 2> /dev/null'' \<and> mentionsRm ''rm -f /tmp/x 2> /dev/null'' \<and>
   checkedTokens ''rm -f /tmp/x 2> /dev/null'' = [''/tmp/x'', ''2>'', ''/dev/null''] \<and>
   \<not> isPathAllowed exampleConfig ''/dev/null'' \<and>
   checkCommandSafety exampleConfig ''rm -f /tmp/x 2> /dev/null'' \<noteq> (True, [])"
proof -
  have a: "inTempPath exampleConfig ''/tmp/x''" by code_simp
  have b: "noBlockedPattern ''rm -f /tmp/x''" by code_simp
  have c: "checkedTokens ''rm -f /tmp/x'' = [''/tmp/x'']" by code_simp
  have d: "noBlockedPattern ''rm -f /tmp/x 2> /dev/null''" "mentionsRm ''rm -f /tmp/x 2> /dev/null''"
    "checkedTokens ''rm -f /tmp/x 2> /dev/null'' = [''/tmp/x'', ''2>'', ''/dev/null'']"
    "\<not> isPathAllowed exampleConfig ''/dev/null''"
    by code_simp+
  note t1 = temp_paths_always_allowed[of exampleConfig "''/tmp/x''" "[]" "''rm -f /tmp/x''"]
  note t2 = temp_paths_always_allowed[of exampleConfig "''/tmp/x''" "[]" "''rm -f /tmp/x 2> /dev/null''"]
  from t1 a b c have 1: "isPathAllowed (exampleConfig\<lparr>ALLOWED_PATHS := []\<rparr>) ''/tmp/x''"
    "checkCommandSafety (exampleConfig\<lparr>ALLOWED_PATHS := []\<rparr>) ''rm -f /tmp/x'' = (True, [])"
    by simp_all
  from t2 d have 2: "checkCommandSafety exampleConfig ''rm -f /tmp/x 2> /dev/null'' \<noteq> (True, [])"
    by simp
  from 1 2 a b c d show ?thesis by blast
qed

text \<open>
  C10, as stated, fails: \<open>rm -rf /tmp/x\<close> is an \<open>rm\<close> command whose only target lies in
  \<open>/tmp/\<close> and is an allowed path, and the command is rejected, since the blocked pattern
  \<open>rm -rf /\<close> occurs in it. And with no blocked pattern: \<open>rm -f /tmp/x 2> /dev/null\<close> and
  \<open>rm /tmp/a & ls /etc\<close> have their only target in \<open>/tmp/\<close> and are rejected for a token
  that is no target of \<open>rm\<close>.
\<close>

theorem rm_in_temp_rejected_counterexample:
  "checkedTokens ''rm -rf /tmp/x'' = [''/tmp/x''] \<and>
   resolvedPath exampleConfig ''/tmp/x'' = ''/tmp/x'' \<and>
   isPathAllowed exampleConfig ''/tmp/x'' \<and>
   checkCommandSafety exampleConfig ''rm -rf /tmp/x'' = (False, ''Blocked pattern: rm -rf /'') \<and>
   noBlockedPattern ''rm -f /tmp/x 2> /dev/null'' \<and>
   checkCommandSafety exampleConfig ''rm -f /tmp/x 2> /dev/null'' =
     (False, ''rm target outside allowed paths: /dev/null'') \<and>
   noBlockedPattern ''rm /tmp/a & ls /etc'' \<and>
   checkCommandSafety exampleConfig ''rm /tmp/a & ls /etc'' =
     (False, ''rm target outside allowed paths: /etc'')"
  by code_simp

section \<open>Properties of the turn runner\<close>

subsection \<open>The terminal event\<close>

lemma hasDone_emit [simp]: "hasDone (emit e r) = (e = Done \<or> hasDone r)"
  by (auto simp: hasDone_def emit_def)

lemma hasDone_streamText [simp]: "hasDone (streamText cfg w text r) = hasDone r"
  by (simp add: hasDone_def streamText_def emit_def tick_def Let_def)

lemma hasDone_tailSteps [simp]: "hasDone (tailSteps step fullText segmentId end r) = hasDone r"
proof (induction step fullText segmentId "end" r rule: tailSteps.induct)
  case (1 step fullText segmentId "end" r)
  let ?r = "(emit (TextEvent (take (nat end) fullText) segmentId) r)
              \<lparr>textCallbackCount := Suc (textCallbackCount r), lastEmittedTextLength := end\<rparr>"
  show ?case
  proof (cases "0 < step \<and> end < int (length fullText)")
    case True
    then have "tailSteps step fullText segmentId end r =
               tailSteps step fullText segmentId (end + step) ?r"
      by (subst tailSteps.simps) simp
    moreover have "hasDone (tailSteps step fullText segmentId (end + step) ?r) = hasDone ?r"
      using "1.IH" True by simp
    moreover have "hasDone ?r = hasDone r" by (simp add: hasDone_def emit_def)
    ultimately show ?thesis by simp
  next
    case False
    then have "tailSteps step fullText segmentId end r = r"
      by (subst tailSteps.simps) auto
    then show ?thesis by simp
  qed
qed

lemma hasDone_emitProgressiveTail [simp]:
  "hasDone (emitProgressiveTail cfg fullText segmentId r) = hasDone r"
  by (simp add: emitProgressiveTail_def)

lemma hasDone_emitFinalSegment [simp]: "hasDone (emitFinalSegment cfg r) = hasDone r"
proof -
  have "\<And>e x. e \<noteq> Done \<Longrightarrow> hasDone (emit e x) = hasDone x"
    by (simp add: hasDone_def emit_def)
  then show ?thesis by (simp add: emitFinalSegment_def)
qed

lemma hasDone_endSegmentForTool [simp]: "hasDone (endSegmentForTool r) = hasDone r"
  by (simp add: hasDone_def endSegmentForTool_def emit_def)

lemma hasDone_setTool [simp]: "hasDone (setTool d r) = hasDone r"
  by (simp add: hasDone_def setTool_def)

lemma hasDone_pollAskUser [simp]: "hasDone (pollAskUser w n r) = hasDone r"
  by (induction n arbitrary: r) (simp_all add: hasDone_def Let_def)

lemma hasDone_persist [simp]: "hasDone (persist cfg w r) = hasDone r"
  by (simp add: hasDone_def persist_def tick_def)

lemma hasDone_acceptToolUse [simp]: "hasDone (acceptToolUse w toolName toolInput r) = hasDone r"
proof -
  have "\<And>e x. e \<noteq> Done \<Longrightarrow> hasDone (emit e x) = hasDone x"
    by (simp add: hasDone_def emit_def)
  then show ?thesis by (simp add: acceptToolUse_def Let_def)
qed

lemma hasDone_toolUseBlock [simp]:
  "hasDone (snd (toolUseBlock cfg w toolName toolInput r)) = hasDone r"
proof -
  have "\<And>e x. e \<noteq> Done \<Longrightarrow> hasDone (emit e x) = hasDone x"
    by (simp add: hasDone_def emit_def)
  then show ?thesis by (simp add: toolUseBlock_def Let_def)
qed

lemma hasDone_processBlock [simp]: "hasDone (snd (processBlock cfg w block r)) = hasDone r"
  by (cases block) simp_all

lemma hasDone_processBlocks [simp]: "hasDone (snd (processBlocks cfg w blocks r)) = hasDone r"
proof (induction blocks arbitrary: r)
  case Nil
  then show ?case by simp
next
  case (Cons block blocks)
  obtain f r1 where p: "processBlock cfg w block r = (f, r1)" by (cases "processBlock cfg w block r")
  then have "hasDone r1 = hasDone r" using hasDone_processBlock[of cfg w block r] by simp
  with Cons.IH[of r1] p show ?case by (cases f) simp_all
qed

lemma hasDone_captureSessionId [simp]: "hasDone (captureSessionId cfg w sid r) = hasDone r"
  by (simp add: captureSessionId_def) (simp add: hasDone_def)

lemma hasDone_claudeEvent [simp]: "hasDone (snd (claudeEvent cfg w event r)) = hasDone r"
proof (cases event)
  case (AssistantMessage sid blocks)
  obtain f r2 where p: "processBlocks cfg w blocks (captureSessionId cfg w sid r) = (f, r2)"
    by (cases "processBlocks cfg w blocks (captureSessionId cfg w sid r)")
  then have "hasDone r2 = hasDone r"
    using hasDone_processBlocks[of cfg w blocks "captureSessionId cfg w sid r"] by simp
  with p AssistantMessage show ?thesis by (cases f) (simp_all add: claudeEvent_def)
next
  case (ResultMessage sid usage)
  have "hasDone (captureSessionId cfg w sid r) = hasDone r" by simp
  then show ?thesis using ResultMessage
    by (cases usage) (simp_all add: claudeEvent_def hasDone_def Let_def)
next
  case (OtherMessage sid)
  then show ?thesis by (simp add: claudeEvent_def)
qed

lemma hasDone_stop [simp]: "hasDone (r\<lparr>this := x\<rparr>) = hasDone r"
  by (simp add: hasDone_def)

lemma hasDone_closeStream [simp]: "hasDone (snd (closeStream items r)) = hasDone r"
  by (induction items r rule: closeStream.induct) simp_all

lemma hasDone_claudeLoop [simp]: "hasDone (snd (claudeLoop cfg w items r)) = hasDone r"
proof (induction cfg w items r rule: claudeLoop.induct)
  case (2 cfg w event items r)
  obtain f r1 where p: "claudeEvent cfg w event r = (f, r1)" by (cases "claudeEvent cfg w event r")
  then have "hasDone r1 = hasDone r" using hasDone_claudeEvent[of cfg w event r] by simp
  with "2.IH" p show ?case by (cases f) auto
qed simp_all

lemma hasDone_codexLoop_parts [simp]:
  "hasDone (snd (commandExecution cfg w cmd r)) = hasDone r"
  "hasDone (completeTurn cfg w r) = hasDone r"
  "hasDone (openThread w r) = hasDone r"
  "hasDone (finallyBlock r) = hasDone r"
  "hasDone (recordError w e r) = hasDone r"
  "hasDone (afterTurn w r) = hasDone r"
  by (simp_all add: commandExecution_def completeTurn_def openThread_def finallyBlock_def
      recordError_def afterTurn_def tick_def Let_def)
    (simp_all add: hasDone_def)

lemma hasDone_codexItem [simp]: "hasDone (snd (codexItem cfg w item r)) = hasDone r"
  by (cases item) simp_all

lemma hasDone_codexEvent [simp]: "hasDone (snd (codexEvent cfg w event r)) = hasDone r"
  by (cases event) (simp_all add: codexEvent_def split: option.split)

lemma hasDone_codexLoop [simp]: "hasDone (snd (codexLoop cfg w items r)) = hasDone r"
proof (induction cfg w items r rule: codexLoop.induct)
  case (2 cfg w event items r)
  obtain f r1 where p: "codexEvent cfg w event r = (f, r1)" by (cases "codexEvent cfg w event r")
  then have "hasDone r1 = hasDone r" using hasDone_codexEvent[of cfg w event r] by simp
  with "2.IH" p show ?case by (cases f) auto
qed simp_all

lemma hasDone_claudeCatch [simp]: "hasDone (snd (claudeCatch w (f, r))) = hasDone r"
  by (cases f) (simp_all add: claudeCatch_def)

lemma hasDone_codexCatch [simp]: "hasDone (snd (codexCatch w (f, r))) = hasDone r"
  by (cases f) (simp_all add: codexCatch_def)

lemma not_hasDone_start [simp]:
  "\<not> hasDone (startRun w controller s hist)" "\<not> hasDone (cancelledRun s hist)"
  by (simp_all add: hasDone_def startRun_def cancelledRun_def)

lemma count_Done_none: "\<not> hasDone r \<Longrightarrow> count_list (emitted r) Done = 0"
  by (simp add: hasDone_def)

lemma count_Done_one:
  "\<not> hasDone r \<Longrightarrow>
     count_list (emitted (emit Done r)) Done = 1 \<and> last (emitted (emit Done r)) = Done"
  by (simp add: hasDone_def emit_def)

lemma claude_doneContract: "doneContract (sendMessageStreamingClaude cfg w items s hist)"
proof (cases "stopRequested (dropUnusableId s)")
  case True
  then show ?thesis
    by (simp add: sendMessageStreamingClaude_def doneContract_def count_Done_none)
next
  case False
  obtain f r where l: "claudeTry cfg w items (dropUnusableId s) hist = (f, r)"
    by (cases "claudeTry cfg w items (dropUnusableId s) hist")
  obtain res r' where c: "claudeCatch w (f, r) = (res, r')" by (cases "claudeCatch w (f, r)")
  have "\<not> hasDone (snd (claudeTry cfg w items (dropUnusableId s) hist))"
    by (simp add: claudeTry_def)
  with l have "\<not> hasDone r" by simp
  then have n: "\<not> hasDone r'" using hasDone_claudeCatch[of w f r] c by simp
  show ?thesis
  proof (cases res)
    case (Some e)
    with False l c n show ?thesis
      by (simp add: sendMessageStreamingClaude_def doneContract_def count_Done_none)
  next
    case None
    from n have "\<not> hasDone (afterTurn w r')" "\<not> hasDone (emitFinalSegment cfg (afterTurn w r'))"
      by simp_all
    with False l c None show ?thesis
      by (simp add: sendMessageStreamingClaude_def doneContract_def Let_def count_Done_one)
  qed
qed

lemma codex_doneContract: "doneContract (sendMessageStreamingCodex cfg w items s hist)"
proof (cases "stopRequested (dropUnusableId s)")
  case True
  then show ?thesis
    by (simp add: sendMessageStreamingCodex_def doneContract_def count_Done_none)
next
  case False
  obtain f r where l: "codexTry cfg w items (dropUnusableId s) hist = (f, r)"
    by (cases "codexTry cfg w items (dropUnusableId s) hist")
  obtain res r' where c: "codexCatch w (f, r) = (res, r')" by (cases "codexCatch w (f, r)")
  have "\<not> hasDone (snd (codexTry cfg w items (dropUnusableId s) hist))"
    by (simp add: codexTry_def)
  with l have "\<not> hasDone r" by simp
  then have n: "\<not> hasDone r'" using hasDone_codexCatch[of w f r] c by simp
  show ?thesis
  proof (cases res)
    case (Some e)
    with False l c n show ?thesis
      by (simp add: sendMessageStreamingCodex_def doneContract_def count_Done_none)
  next
    case None
    from n have "\<not> hasDone (emitFinalSegment cfg (afterTurn w r'))" by simp
    with False l c None show ?thesis
      by (simp add: sendMessageStreamingCodex_def doneContract_def Let_def count_Done_one)
  qed
qed

text \<open>
  C2, amended. Whatever the backend streams (events, exceptions, stop requests), a turn
  that returns to its caller has emitted exactly one \<open>done\<close> event, and it is the last
  event; a turn that throws to its caller (a backend failure, a rejected tool, a stop
  requested before the start) has emitted no \<open>done\<close> event.
\<close>

theorem done_exactly_once_on_return:
  "doneContract (sendMessageStreaming cfg w claudeItems codexItems s hist)"
  by (simp add: sendMessageStreaming_def claude_doneContract codex_doneContract)

theorem done_exactly_once_on_return_witness:
  "fst (sendMessageStreaming exampleConfig exampleWorld [] failingCodexStream codexSession [])
     = Inl ''Error: boom'' \<and>
   count_list (emitted (snd (sendMessageStreaming exampleConfig exampleWorld []
      failingCodexStream codexSession []))) Done = 0 \<and>
   fst (sendMessageStreaming exampleConfig exampleWorld []
      failingCodexStream activeSession []) = Inr ''No response from Claude.'' \<and>
   count_list (emitted (snd (sendMessageStreaming exampleConfig exampleWorld []
      failingCodexStream activeSession []))) Done = 1"
proof -
  have a: "fst (sendMessageStreaming exampleConfig exampleWorld [] failingCodexStream codexSession [])
     = Inl ''Error: boom''" by code_simp
  have b: "fst (sendMessageStreaming exampleConfig exampleWorld []
      failingCodexStream activeSession []) = Inr ''No response from Claude.''" by code_simp
  from done_exactly_once_on_return[of exampleConfig exampleWorld "[]" failingCodexStream codexSession "[]"]
    done_exactly_once_on_return[of exampleConfig exampleWorld "[]" failingCodexStream activeSession "[]"]
    a b
  show ?thesis
    by (auto simp: doneContract_def split: prod.splits sum.splits)
qed

text \<open>
  C2, as stated, fails: a Codex stream that ends in a turn failure makes the turn throw,
  and the events emitted are one text event and no \<open>done\<close> event.
\<close>

theorem done_missing_on_failure_counterexample:
  "fst (sendMessageStreaming exampleConfig exampleWorld [] failingCodexStream codexSession [])
     = Inl ''Error: boom'' \<and>
   emitted (snd (sendMessageStreaming exampleConfig exampleWorld [] failingCodexStream
      codexSession [])) = [TextEvent ''abc'' 0] \<and>
   count_list (emitted (snd (sendMessageStreaming exampleConfig exampleWorld [] failingCodexStream
      codexSession []))) Done \<noteq> 1"
  by code_simp

subsection \<open>Stop requests and rejected commands\<close>

text \<open>
  C4, amended. \<open>stop()\<close> on a session that is processing, with no query running, sets the
  stop flag and answers \<open>pending\<close>. The turn that starts next, with either assistant,
  throws the cancellation error at once, clears the flag, and has emitted no status event
  at all: no \<open>thinking\<close>, \<open>tool\<close> or \<open>text\<close> event, and no \<open>done\<close> event either.
\<close>

theorem stop_while_processing_cancels_turn:
  assumes "isProcessing s" and "\<not> isQueryRunning s"
  shows "stop s = (Pending, s\<lparr>stopRequested := True\<rparr>) \<and>
         fst (sendMessageStreaming cfg w claudeItems codexItems (snd (stop s)) hist) =
           Inl ''Error: Query cancelled'' \<and>
         emitted (snd (sendMessageStreaming cfg w claudeItems codexItems (snd (stop s)) hist)) = [] \<and>
         stopRequested (this (snd (sendMessageStreaming cfg w claudeItems codexItems (snd (stop s)) hist)))
           = False"
proof -
  have st: "stop s = (Pending, s\<lparr>stopRequested := True\<rparr>)"
    using assms by (simp add: stop_def)
  have d: "stopRequested (dropUnusableId (s\<lparr>stopRequested := True\<rparr>))"
    by (simp add: dropUnusableId_def)
  have a: "assistantMode (s\<lparr>stopRequested := True\<rparr>) = assistantMode s" by simp
  show ?thesis
    using d by (cases "assistantMode s")
      (simp_all add: st a sendMessageStreaming_def sendMessageStreamingClaude_def
        sendMessageStreamingCodex_def cancelledRun_def errorText_def)
qed

theorem stop_while_processing_cancels_turn_witness:
  "isProcessing processingSession \<and> \<not> isQueryRunning processingSession \<and>
   fst (stop processingSession) = Pending \<and>
   fst (sendMessageStreaming exampleConfig exampleWorld abortedClaudeStream []
         (snd (stop processingSession)) []) = Inl ''Error: Query cancelled'' \<and>
   emitted (snd (sendMessageStreaming exampleConfig exampleWorld abortedClaudeStream []
         (snd (stop processingSession)) [])) = []"
proof -
  have h: "isProcessing processingSession" "\<not> isQueryRunning processingSession"
    by code_simp+
  note t = stop_while_processing_cancels_turn[OF h,
      of exampleConfig exampleWorld abortedClaudeStream "[]" "[]"]
  have p: "fst (stop processingSession) = Pending" using t by simp
  from t p h show ?thesis by blast
qed

text \<open>
  C4, as stated, fails in its last words: the cancelled turn does not emit \<open>done\<close>; the
  events it emits are not the single event \<open>done\<close> but none.
\<close>

theorem stop_while_processing_no_done_counterexample:
  "fst (stop processingSession) = Pending \<and>
   fst (sendMessageStreaming exampleConfig exampleWorld abortedClaudeStream []
         (snd (stop processingSession)) []) = Inl ''Error: Query cancelled'' \<and>
   emitted (snd (sendMessageStreaming exampleConfig exampleWorld abortedClaudeStream []
         (snd (stop processingSession)) [])) \<noteq> [Done] \<and>
   Done \<notin> set (emitted (snd (sendMessageStreaming exampleConfig exampleWorld abortedClaudeStream []
         (snd (stop processingSession)) [])))"
  by code_simp

text \<open>
  A rejected shell command, in either adapter: the \<open>tool\<close> event with the reason is
  emitted and the error is thrown out of the event.
\<close>

lemma unsafe_bash_block_throws:
  assumes "\<not> fst (checkCommandSafety cfg cmd)"
  shows "processBlock cfg w (ToolUse ''Bash'' \<lparr>tool_command = Some cmd, tool_file_path = fp\<rparr>) r =
           (Throw (errorText (''Unsafe command blocked: '' @ snd (checkCommandSafety cfg cmd))),
            emit (ToolEvent (''BLOCKED: '' @ snd (checkCommandSafety cfg cmd))) r)"
    and "codexItem cfg w (CommandExecution (Some cmd)) r =
           (Throw (errorText (''Unsafe command blocked: '' @ snd (checkCommandSafety cfg cmd))),
            emit (ToolEvent (''BLOCKED: '' @ snd (checkCommandSafety cfg cmd))) r)"
proof -
  have c: "checkCommandSafety cfg [] = (True, [])" by code_simp
  with assms have "cmd \<noteq> []" by auto
  with assms show "processBlock cfg w (ToolUse ''Bash'' \<lparr>tool_command = Some cmd, tool_file_path = fp\<rparr>) r =
           (Throw (errorText (''Unsafe command blocked: '' @ snd (checkCommandSafety cfg cmd))),
            emit (ToolEvent (''BLOCKED: '' @ snd (checkCommandSafety cfg cmd))) r)"
    and "codexItem cfg w (CommandExecution (Some cmd)) r =
           (Throw (errorText (''Unsafe command blocked: '' @ snd (checkCommandSafety cfg cmd))),
            emit (ToolEvent (''BLOCKED: '' @ snd (checkCommandSafety cfg cmd))) r)"
    by (simp_all add: toolUseBlock_def commandExecution_def orElse_def Let_def)
qed

text \<open>
  C1 on the code. An assistant message holds an ask-user tool call, for which a pending
  request is found, and then a Bash call \<open>rm /etc/abort\<close>. The command is rejected and the
  \<open>tool\<close> event with the reason is emitted, but the error thrown for it contains the
  letters \<open>abort\<close> (from the path), so the \<open>catch\<close> block takes it for teardown noise
  after the ask-user wait and swallows it: the turn returns the waiting text, emits
  \<open>done\<close>, and records no error.
\<close>

theorem unsafe_command_swallowed_after_ask_user:
  "checkCommandSafety exampleConfig ''rm /etc/abort'' =
     (False, ''rm target outside allowed paths: /etc/abort'') \<and>
   fst (sendMessageStreaming exampleConfig exampleWorld askUserThenUnsafeRm []
          (newSession exampleConfig) []) = Inr ''[Waiting for user selection]'' \<and>
   emitted (snd (sendMessageStreaming exampleConfig exampleWorld askUserThenUnsafeRm []
          (newSession exampleConfig) [])) =
     [ToolEvent ''BLOCKED: rm target outside allowed paths: /etc/abort'', Done] \<and>
   lastError (this (snd (sendMessageStreaming exampleConfig exampleWorld askUserThenUnsafeRm []
          (newSession exampleConfig) []))) = None"
  by code_simp

subsection \<open>A single large text block\<close>

lemma segmentOpen_streamText:
  assumes "emitted r = []" and "currentSegmentText r = []" and "responseParts r = []"
    and "currentSegmentId r = 0" and "\<not> askUserTriggered r" and "textCallbackCount r = 0"
  shows "segmentOpen text (streamText cfg w text r)"
  using assms by (simp add: segmentOpen_def streamText_def emit_def tick_def Let_def)

lemma segmentOpen_captureSessionId [simp]:
  "segmentOpen text (captureSessionId cfg w sid r) = segmentOpen text r"
  by (simp add: segmentOpen_def captureSessionId_def persist_def tick_def)

lemma locals_captureSessionId [simp]:
  "emitted (captureSessionId cfg w sid r) = emitted r"
  "currentSegmentText (captureSessionId cfg w sid r) = currentSegmentText r"
  "responseParts (captureSessionId cfg w sid r) = responseParts r"
  "currentSegmentId (captureSessionId cfg w sid r) = currentSegmentId r"
  "askUserTriggered (captureSessionId cfg w sid r) = askUserTriggered r"
  "textCallbackCount (captureSessionId cfg w sid r) = textCallbackCount r"
  "stopRequested (this (captureSessionId cfg w sid r)) = stopRequested (this r)"
  by (simp_all add: captureSessionId_def persist_def tick_def)

lemma segmentOpen_frame [simp]:
  "segmentOpen text (finallyBlock r) = segmentOpen text r"
  "segmentOpen text (afterTurn w r) = segmentOpen text r"
  "segmentOpen text (completeTurn cfg w r) = segmentOpen text r"
  "segmentOpen text (r\<lparr>this := x\<rparr>) = segmentOpen text r"
  "segmentOpen text (r\<lparr>queryCompleted := b\<rparr>) = segmentOpen text r"
  by (simp_all add: segmentOpen_def finallyBlock_def afterTurn_def completeTurn_def persist_def
      tick_def)

lemma startRun_locals [simp]:
  "emitted (startRun w c s hist) = []" "currentSegmentText (startRun w c s hist) = []"
  "responseParts (startRun w c s hist) = []" "currentSegmentId (startRun w c s hist) = 0"
  "\<not> askUserTriggered (startRun w c s hist)" "textCallbackCount (startRun w c s hist) = 0"
  "\<not> stopRequested (this (startRun w c s hist))"
  by (simp_all add: startRun_def)

lemma openThread_locals [simp]:
  "emitted (openThread w r) = emitted r" "currentSegmentText (openThread w r) = currentSegmentText r"
  "responseParts (openThread w r) = responseParts r" "currentSegmentId (openThread w r) = currentSegmentId r"
  "askUserTriggered (openThread w r) = askUserTriggered r"
  "textCallbackCount (openThread w r) = textCallbackCount r"
  "stopRequested (this (openThread w r)) = stopRequested (this r)"
  by (simp_all add: openThread_def)

lemma streamText_this [simp]: "this (streamText cfg w text r) = this r"
  by (simp add: streamText_def emit_def tick_def Let_def)

lemma tailSteps_frame:
  "responseParts (tailSteps step fullText segmentId end r) = responseParts r \<and>
   (list_all (isTextOf segmentId) (emitted r) \<longrightarrow>
      list_all (isTextOf segmentId) (emitted (tailSteps step fullText segmentId end r)))"
proof (induction step fullText segmentId "end" r rule: tailSteps.induct)
  case (1 step fullText segmentId "end" r)
  show ?case
    using "1.IH" by (subst (1 2) tailSteps.simps) (simp add: emit_def)
qed

lemma emitProgressiveTail_frame:
  "responseParts (emitProgressiveTail cfg fullText segmentId r) = responseParts r \<and>
   (list_all (isTextOf segmentId) (emitted r) \<longrightarrow>
      list_all (isTextOf segmentId) (emitted (emitProgressiveTail cfg fullText segmentId r)))"
  using tailSteps_frame by (simp add: emitProgressiveTail_def)

lemma segmentOpen_final:
  assumes "segmentOpen text r" and "text \<noteq> []"
  shows "endsWithFullText text
           (Inr (responseOr fallback (emit Done (emitFinalSegment cfg r))),
            emit Done (emitFinalSegment cfg r))"
proof -
  let ?t = "emitProgressiveTail cfg text 0 r"
  from assms have c: "currentSegmentText r = text" "currentSegmentId r = 0"
    "responseParts r = [text]" "list_all (isTextOf 0) (emitted r)"
    by (simp_all add: segmentOpen_def)
  have f: "emitFinalSegment cfg r = emit (SegmentEnd text 0) ?t"
    using c assms(2) by (simp add: emitFinalSegment_def)
  have t: "responseParts ?t = [text]" "list_all (isTextOf 0) (emitted ?t)"
    using emitProgressiveTail_frame[of cfg "text" 0 r] c by simp_all
  have e: "emitted (emit Done (emitFinalSegment cfg r)) = emitted ?t @ [SegmentEnd text 0] @ [Done]"
    by (simp add: f emit_def)
  have p: "responseParts (emit Done (emitFinalSegment cfg r)) = [text]"
    using t by (simp add: f emit_def)
  show ?thesis
    using t assms(2) by (simp add: endsWithFullText_def e p responseOr_def butlast_append)
qed

lemma claude_single_block:
  assumes "items = [Yields (AssistantMessage sid [Text text]), Yields (ResultMessage sid2 usage)]"
  shows "fst (claudeTry cfg w items s1 hist) = Continue \<and>
         segmentOpen text (snd (claudeTry cfg w items s1 hist))"
proof -
  let ?r0 = "startRun w (Some False) s1 hist"
  let ?r1 = "streamText cfg w text (captureSessionId cfg w sid ?r0)"
  have o: "segmentOpen text ?r1"
    by (rule segmentOpen_streamText) simp_all
  then have a: "\<not> askUserTriggered ?r1" by (simp add: segmentOpen_def)
  have e1: "claudeEvent cfg w (AssistantMessage sid [Text text]) ?r0 = (Continue, ?r1)"
    using a by (simp add: claudeEvent_def Let_def)
  have s1: "\<not> stopRequested (this ?r1)" by simp
  obtain r2 where e2: "claudeEvent cfg w (ResultMessage sid2 usage) ?r1 = (Continue, r2)"
    and o2: "segmentOpen text r2"
    using s1 o by (cases usage) (simp_all add: claudeEvent_def Let_def)
  show ?thesis
    using e1 e2 o2 by (simp add: claudeTry_def assms)
qed

lemma codex_single_block:
  assumes "items = [Yields (ItemCompleted (Some (AgentMessage (Some text)))), Yields TurnCompleted]"
    and "text \<noteq> []"
  shows "fst (codexTry cfg w items s1 hist) = Break \<and>
         segmentOpen text (snd (codexTry cfg w items s1 hist))"
proof -
  let ?r0 = "openThread w (startRun w None s1 hist)"
  let ?r1 = "streamText cfg w text ?r0"
  have o: "segmentOpen text ?r1"
    by (rule segmentOpen_streamText) simp_all
  have e1: "codexEvent cfg w (ItemCompleted (Some (AgentMessage (Some text)))) ?r0 = (Continue, ?r1)"
    using assms(2) by (simp add: codexEvent_def)
  have s1: "\<not> stopRequested (this ?r1)" by simp
  have e2: "codexEvent cfg w TurnCompleted ?r1 = (Break, completeTurn cfg w ?r1)"
    using s1 by (simp add: codexEvent_def)
  show ?thesis
    using e1 e2 o by (simp add: codexTry_def assms(1))
qed

text \<open>
  C9. The backend sends one text block, not empty, and completes; no stop is pending.
  Whatever the fallback threshold, the step and the throttle interval are, and whatever
  the clock shows, the turn returns the block, its last event is \<open>done\<close>, the event
  before it is the \<open>segment_end\<close> of segment 0 with the whole block as content, and all
  events before that are text events of segment 0 (the prefix and the synthetic tail when
  the block is as long as the threshold). This holds for the Claude and the Codex adapter.
\<close>

theorem single_snapshot_ends_with_full_text:
  assumes "\<not> stopRequested s" and "text \<noteq> []"
  shows "endsWithFullText text
           (sendMessageStreamingClaude cfg w
              [Yields (AssistantMessage sid [Text text]), Yields (ResultMessage sid2 usage)] s hist) \<and>
         endsWithFullText text
           (sendMessageStreamingCodex cfg w
              [Yields (ItemCompleted (Some (AgentMessage (Some text)))), Yields TurnCompleted] s hist)"
proof
  let ?items = "[Yields (AssistantMessage sid [Text text]), Yields (ResultMessage sid2 usage)]"
  have d: "\<not> stopRequested (dropUnusableId s)" using assms(1) by (simp add: dropUnusableId_def)
  obtain f r where t: "claudeTry cfg w ?items (dropUnusableId s) hist = (f, r)"
    by (cases "claudeTry cfg w ?items (dropUnusableId s) hist")
  with claude_single_block[of ?items sid "text" sid2 usage cfg w "dropUnusableId s" hist]
  have fr: "f = Continue" "segmentOpen text r" by simp_all
  then have o: "segmentOpen text (afterTurn w (finallyBlock r))" by simp
  then have a: "\<not> askUserTriggered (afterTurn w (finallyBlock r))" by (simp add: segmentOpen_def)
  show "endsWithFullText text (sendMessageStreamingClaude cfg w ?items s hist)"
    using d t fr(1) a segmentOpen_final[OF o assms(2), of "''No response from Claude.''" cfg]
    by (simp add: sendMessageStreamingClaude_def claudeCatch_def Let_def)
next
  let ?items = "[Yields (ItemCompleted (Some (AgentMessage (Some text)))), Yields TurnCompleted]"
  have d: "\<not> stopRequested (dropUnusableId s)" using assms(1) by (simp add: dropUnusableId_def)
  obtain f r where t: "codexTry cfg w ?items (dropUnusableId s) hist = (f, r)"
    by (cases "codexTry cfg w ?items (dropUnusableId s) hist")
  with codex_single_block[of ?items "text" cfg w "dropUnusableId s" hist] assms(2)
  have fr: "f = Break" "segmentOpen text r" by simp_all
  then have o: "segmentOpen text (afterTurn w (finallyBlock r))" by simp
  show "endsWithFullText text (sendMessageStreamingCodex cfg w ?items s hist)"
    using d t fr(1) segmentOpen_final[OF o assms(2), of "''No response from Codex.''" cfg]
    by (simp add: sendMessageStreamingCodex_def codexCatch_def Let_def)
qed

theorem single_snapshot_ends_with_full_text_witness:
  "\<not> stopRequested activeSession \<and>
   STREAMING_SYNTHETIC_FALLBACK_MIN_CHARS snapshotConfig \<le> int (length ''0123456789'') \<and>
   emitted (snd (sendMessageStreamingClaude snapshotConfig exampleWorld
      [Yields (AssistantMessage None [Text ''0123456789'']), Yields (ResultMessage None None)]
      activeSession [])) =
     [TextEvent ''012'' 0, TextEvent ''012345'' 0, TextEvent ''012345678'' 0,
      SegmentEnd ''0123456789'' 0, Done] \<and>
   endsWithFullText ''0123456789'' (sendMessageStreamingClaude snapshotConfig exampleWorld
      [Yields (AssistantMessage None [Text ''0123456789'']), Yields (ResultMessage None None)]
      activeSession [])"
proof -
  have h: "\<not> stopRequested activeSession" "''0123456789'' \<noteq> []" by code_simp+
  have m: "STREAMING_SYNTHETIC_FALLBACK_MIN_CHARS snapshotConfig \<le> int (length ''0123456789'')"
    by code_simp
  have e: "emitted (snd (sendMessageStreamingClaude snapshotConfig exampleWorld
      [Yields (AssistantMessage None [Text ''0123456789'']), Yields (ResultMessage None None)]
      activeSession [])) =
     [TextEvent ''012'' 0, TextEvent ''012345'' 0, TextEvent ''012345678'' 0,
      SegmentEnd ''0123456789'' 0, Done]"
    by code_simp
  from single_snapshot_ends_with_full_text[OF h, of snapshotConfig exampleWorld None None None "[]"]
    h m e
  show ?thesis by blast
qed

subsection \<open>Suppressed and reported errors\<close>

lemma closeStream_not_Continue: "fst (closeStream items r) \<noteq> Continue"
  by (induction items r rule: closeStream.induct) simp_all

lemma claudeLoop_continue_append:
  "claudeLoop cfg w pre r = (Continue, r1) \<Longrightarrow>
     claudeLoop cfg w (pre @ items) r = claudeLoop cfg w items r1"
proof (induction cfg w pre r rule: claudeLoop.induct)
  case (2 cfg w event pre r)
  obtain f r' where p: "claudeEvent cfg w event r = (f, r')" by (cases "claudeEvent cfg w event r")
  show ?case
  proof (cases f)
    case Continue
    with "2.IH" "2.prems" p show ?thesis by simp
  next
    case Break
    with "2.prems" p closeStream_not_Continue[of pre r'] show ?thesis by simp
  next
    case (Throw x)
    with "2.prems" p show ?thesis by simp
  qed
qed simp_all

lemma codexLoop_continue_append:
  "codexLoop cfg w pre r = (Continue, r1) \<Longrightarrow>
     codexLoop cfg w (pre @ items) r = codexLoop cfg w items r1"
proof (induction cfg w pre r rule: codexLoop.induct)
  case (2 cfg w event pre r)
  obtain f r' where p: "codexEvent cfg w event r = (f, r')" by (cases "codexEvent cfg w event r")
  show ?case
  proof (cases f)
    case Continue
    with "2.IH" "2.prems" p show ?thesis by simp
  next
    case Break
    with "2.prems" p closeStream_not_Continue[of pre r'] show ?thesis by simp
  next
    case (Throw x)
    with "2.prems" p show ?thesis by simp
  qed
qed simp_all

lemma this_emit [simp]: "this (emit e r) = this r"
  by (simp add: emit_def)

lemma this_streamText [simp]: "this (streamText cfg w text r) = this r"
  by (simp add: streamText_def emit_def tick_def Let_def)

lemma this_endSegmentForTool [simp]: "this (endSegmentForTool r) = this r"
  by (simp add: endSegmentForTool_def emit_def)

lemma this_pollAskUser [simp]: "this (pollAskUser w n r) = this r"
  by (induction n arbitrary: r) (simp_all add: Let_def)

lemma running_local [simp]:
  "running (emit e r) = running r"
  "running (streamText cfg w text r) = running r"
  "running (endSegmentForTool r) = running r"
  "running (pollAskUser w n r) = running r"
  by (simp_all add: running_def)

lemma running_parts [simp]:
  "running (setTool d r) = running r"
  "running (persist cfg w r) = running r"
  "running (captureSessionId cfg w sid r) = running r"
  "running (completeTurn cfg w r) = running r"
  "running (openThread w r) = running r"
  "running (r\<lparr>this := snd (stop (this r))\<rparr>) = running r"
  "running (r\<lparr>queryCompleted := b\<rparr>) = running r"
  "running (r\<lparr>this := (this r)\<lparr>lastUsage := u\<rparr>\<rparr>) = running r"
  "running (startRun w c s hist)"
  by (simp_all add: running_def setTool_def persist_def tick_def captureSessionId_def
      completeTurn_def openThread_def stop_def startRun_def)

lemma running_acceptToolUse [simp]: "running (acceptToolUse w toolName toolInput r) = running r"
  by (simp add: acceptToolUse_def Let_def running_def setTool_def)

lemma running_toolUseBlock [simp]:
  "running (snd (toolUseBlock cfg w toolName toolInput r)) = running r"
  by (simp add: toolUseBlock_def Let_def)

lemma running_processBlock [simp]: "running (snd (processBlock cfg w block r)) = running r"
  by (cases block) simp_all

lemma running_processBlocks [simp]: "running (snd (processBlocks cfg w blocks r)) = running r"
proof (induction blocks arbitrary: r)
  case Nil
  then show ?case by simp
next
  case (Cons block blocks)
  obtain f r1 where p: "processBlock cfg w block r = (f, r1)" by (cases "processBlock cfg w block r")
  then have "running r1 = running r" using running_processBlock[of cfg w block r] by simp
  with Cons.IH[of r1] p show ?case by (cases f) simp_all
qed

lemma running_claudeEvent [simp]: "running (snd (claudeEvent cfg w event r)) = running r"
proof (cases event)
  case (AssistantMessage sid blocks)
  obtain f r2 where p: "processBlocks cfg w blocks (captureSessionId cfg w sid r) = (f, r2)"
    by (cases "processBlocks cfg w blocks (captureSessionId cfg w sid r)")
  then have "running r2 = running r"
    using running_processBlocks[of cfg w blocks "captureSessionId cfg w sid r"] by simp
  with p AssistantMessage show ?thesis by (cases f) (simp_all add: claudeEvent_def)
next
  case (ResultMessage sid usage)
  then show ?thesis
    by (cases usage) (simp_all add: claudeEvent_def Let_def)
next
  case (OtherMessage sid)
  then show ?thesis by (simp add: claudeEvent_def)
qed

lemma running_closeStream [simp]: "running (snd (closeStream items r)) = running r"
  by (induction items r rule: closeStream.induct) simp_all

lemma running_claudeLoop [simp]: "running (snd (claudeLoop cfg w items r)) = running r"
proof (induction cfg w items r rule: claudeLoop.induct)
  case (2 cfg w event items r)
  obtain f r1 where p: "claudeEvent cfg w event r = (f, r1)" by (cases "claudeEvent cfg w event r")
  then have "running r1 = running r" using running_claudeEvent[of cfg w event r] by simp
  with "2.IH" p show ?case by (cases f) auto
qed simp_all

lemma running_commandExecution [simp]: "running (snd (commandExecution cfg w cmd r)) = running r"
  by (simp add: commandExecution_def Let_def)

lemma running_codexItem [simp]: "running (snd (codexItem cfg w item r)) = running r"
  by (cases item) simp_all

lemma running_codexEvent [simp]: "running (snd (codexEvent cfg w event r)) = running r"
  by (cases event) (simp_all add: codexEvent_def split: option.split)

lemma running_codexLoop [simp]: "running (snd (codexLoop cfg w items r)) = running r"
proof (induction cfg w items r rule: codexLoop.induct)
  case (2 cfg w event items r)
  obtain f r1 where p: "codexEvent cfg w event r = (f, r1)" by (cases "codexEvent cfg w event r")
  then have "running r1 = running r" using running_codexEvent[of cfg w event r] by simp
  with "2.IH" p show ?case by (cases f) auto
qed simp_all

lemma running_try:
  "claudeTry cfg w items s1 hist = (f, r) \<Longrightarrow> running r"
  "codexTry cfg w items2 s1 hist = (f, r) \<Longrightarrow> running r"
proof -
  have "running (snd (claudeTry cfg w items s1 hist))" by (simp add: claudeTry_def)
  then show "claudeTry cfg w items s1 hist = (f, r) \<Longrightarrow> running r" by simp
  have "running (snd (codexTry cfg w items2 s1 hist))" by (simp add: codexTry_def)
  then show "codexTry cfg w items2 s1 hist = (f, r) \<Longrightarrow> running r" by simp
qed

lemma stop_while_running: "running r \<Longrightarrow> stopRequested (snd (stop (this r)))"
  by (simp add: running_def stop_def)

lemma stopRequested_dropUnusableId [simp]:
  "stopRequested (dropUnusableId s) = stopRequested s"
  "lastError (dropUnusableId s) = lastError s"
  "lastErrorTime (dropUnusableId s) = lastErrorTime s"
  by (simp_all add: dropUnusableId_def)

lemma finallyBlock_error [simp]:
  "lastError (this (finallyBlock r)) = lastError (this r)"
  "lastErrorTime (this (finallyBlock r)) = lastErrorTime (this r)"
  by (simp_all add: finallyBlock_def)

lemma recordError_error [simp]:
  "lastError (this (recordError w e r)) = Some (take 100 e)"
  "lastErrorTime (this (recordError w e r)) = Some (readClock w r)"
  by (simp_all add: recordError_def tick_def)

lemma this_tailSteps [simp]: "this (tailSteps step fullText segmentId end r) = this r"
proof (induction step fullText segmentId "end" r rule: tailSteps.induct)
  case (1 step fullText segmentId "end" r)
  show ?case
    using "1.IH" by (subst tailSteps.simps) (simp add: emit_def)
qed

lemma this_emitFinalSegment [simp]: "this (emitFinalSegment cfg r) = this r"
  by (simp add: emitFinalSegment_def emitProgressiveTail_def)

lemma afterTurn_error [simp]:
  "lastError (this (afterTurn w r)) = None" "lastErrorTime (this (afterTurn w r)) = None"
  by (simp_all add: afterTurn_def tick_def)

lemma claude_catch_rule:
  assumes "\<not> stopRequested s"
    and "claudeTry cfg w items (dropUnusableId s) hist = (Throw e, r)"
  shows "if isCleanupError e \<and> (queryCompleted r \<or> askUserTriggered r \<or> stopRequested (this r))
         then swallowed (sendMessageStreamingClaude cfg w items s hist)
         else reported e (readClock w r) (sendMessageStreamingClaude cfg w items s hist)"
  using assms
  by (simp add: sendMessageStreamingClaude_def claudeCatch_def Let_def swallowed_def reported_def)

lemma codex_catch_rule:
  assumes "\<not> stopRequested s"
    and "codexTry cfg w items (dropUnusableId s) hist = (Throw e, r)"
  shows "if isCleanupError e \<and> stopRequested (this r)
         then swallowed (sendMessageStreamingCodex cfg w items s hist)
         else reported e (readClock w r) (sendMessageStreamingCodex cfg w items s hist)"
  using assms
  by (simp add: sendMessageStreamingCodex_def codexCatch_def Let_def swallowed_def reported_def)

lemma cancelled_before_start:
  assumes "stopRequested s"
  shows "fst (sendMessageStreaming cfg w claudeItems codexItems s hist) = Inl ''Error: Query cancelled'' \<and>
         lastError (this (snd (sendMessageStreaming cfg w claudeItems codexItems s hist))) = lastError s \<and>
         lastErrorTime (this (snd (sendMessageStreaming cfg w claudeItems codexItems s hist)))
           = lastErrorTime s"
  using assms
  by (simp add: sendMessageStreaming_def sendMessageStreamingClaude_def
      sendMessageStreamingCodex_def cancelledRun_def errorText_def)

lemma claudeEvent_stopped:
  "stopRequested (this r) \<Longrightarrow> claudeEvent cfg w event r = (Break, r)"
  by (simp add: claudeEvent_def)

lemma stopRequested_captureSessionId [simp]:
  "stopRequested (this (captureSessionId cfg w sid r)) = stopRequested (this r)"
  "polls (captureSessionId cfg w sid r) = polls r"
  by (simp_all add: captureSessionId_def persist_def tick_def)

lemma claudeEvent_result:
  assumes "\<not> stopRequested (this r)"
  shows "fst (claudeEvent cfg w (ResultMessage sid usage) r) = Continue \<and>
         queryCompleted (snd (claudeEvent cfg w (ResultMessage sid usage) r))"
  using assms by (cases usage) (simp_all add: claudeEvent_def Let_def)

lemma pollAskUser_found:
  "checkPendingAskUserRequests w (polls r) \<Longrightarrow> askUserTriggered (pollAskUser w (Suc n) r)"
  by (simp add: Let_def)

lemma claudeEvent_askUser:
  assumes "\<not> stopRequested (this r)" and "startsWith toolName ''mcp__ask-user''"
    and "ctxPresent w" and "chatIdGiven w" and "checkPendingAskUserRequests w (polls r)"
  shows "fst (claudeEvent cfg w (AssistantMessage sid [ToolUse toolName toolInput]) r) = Break \<and>
         askUserTriggered (snd (claudeEvent cfg w (AssistantMessage sid [ToolUse toolName toolInput]) r))"
proof -
  let ?r1 = "captureSessionId cfg w sid r"
  let ?r2 = "setTool (formatToolStatus w toolName toolInput) (endSegmentForTool ?r1)"
  have n: "toolName \<noteq> ''Bash''" "toolName \<notin> set [''Read'', ''Write'', ''Edit'']"
    using assms(2) by auto
  have p: "polls ?r2 = polls r"
    by (simp add: setTool_def endSegmentForTool_def emit_def)
  have a: "acceptToolUse w toolName toolInput ?r1 = pollAskUser w 3 ?r2"
    using assms(2,3,4) by (simp add: acceptToolUse_def Let_def chatIdGiven_def)
  have "askUserTriggered (pollAskUser w (Suc 2) ?r2)"
    using assms(5) p by (intro pollAskUser_found) simp
  then have t: "askUserTriggered (acceptToolUse w toolName toolInput ?r1)"
    using a by (simp add: numeral_3_eq_3)
  have b: "toolUseBlock cfg w toolName toolInput ?r1 =
             (Continue, acceptToolUse w toolName toolInput ?r1)"
    using n by (simp add: toolUseBlock_def Let_def)
  show ?thesis
    using assms(1) b t by (simp add: claudeEvent_def Let_def)
qed

lemma claude_result_then_abort:
  assumes "\<not> stopRequested s" and "isCleanupError e"
    and "claudeTry cfg w pre (dropUnusableId s) hist = (Continue, r)"
  shows "swallowed (sendMessageStreamingClaude cfg w
           (pre @ [Yields (ResultMessage sid usage), Throws e]) s hist)"
proof -
  let ?items = "pre @ [Yields (ResultMessage sid usage), Throws e]"
  have l: "claudeTry cfg w ?items (dropUnusableId s) hist =
           claudeLoop cfg w [Yields (ResultMessage sid usage), Throws e] r"
    using assms(3) by (simp add: claudeTry_def claudeLoop_continue_append)
  show ?thesis
  proof (cases "stopRequested (this r)")
    case True
    then have "claudeTry cfg w ?items (dropUnusableId s) hist = (Throw e, r)"
      by (simp add: l claudeEvent_stopped)
    from claude_catch_rule[OF assms(1) this] assms(2) True show ?thesis by simp
  next
    case False
    obtain f r' where p: "claudeEvent cfg w (ResultMessage sid usage) r = (f, r')"
      by (cases "claudeEvent cfg w (ResultMessage sid usage) r")
    with claudeEvent_result[OF False, of cfg w sid usage] have q: "f = Continue" "queryCompleted r'"
      by simp_all
    then have "claudeTry cfg w ?items (dropUnusableId s) hist = (Throw e, r')"
      using p by (simp add: l)
    from claude_catch_rule[OF assms(1) this] assms(2) q show ?thesis by simp
  qed
qed

lemma claude_askUser_then_abort:
  assumes "\<not> stopRequested s" and "isCleanupError e"
    and "claudeTry cfg w pre (dropUnusableId s) hist = (Continue, r)"
    and "startsWith toolName ''mcp__ask-user''"
    and "ctxPresent w" and "chatIdGiven w" and "checkPendingAskUserRequests w (polls r)"
  shows "swallowed (sendMessageStreamingClaude cfg w
           (pre @ [Yields (AssistantMessage sid [ToolUse toolName toolInput]), Throws e]) s hist)"
proof -
  let ?ev = "AssistantMessage sid [ToolUse toolName toolInput]"
  let ?items = "pre @ [Yields ?ev, Throws e]"
  have l: "claudeTry cfg w ?items (dropUnusableId s) hist = claudeLoop cfg w [Yields ?ev, Throws e] r"
    using assms(3) by (simp add: claudeTry_def claudeLoop_continue_append)
  show ?thesis
  proof (cases "stopRequested (this r)")
    case True
    then have "claudeTry cfg w ?items (dropUnusableId s) hist = (Throw e, r)"
      by (simp add: l claudeEvent_stopped)
    from claude_catch_rule[OF assms(1) this] assms(2) True show ?thesis by simp
  next
    case False
    obtain f r' where p: "claudeEvent cfg w ?ev r = (f, r')" by (cases "claudeEvent cfg w ?ev r")
    with claudeEvent_askUser[OF False assms(4-7), of cfg sid toolInput]
    have q: "f = Break" "askUserTriggered r'" by simp_all
    then have "claudeTry cfg w ?items (dropUnusableId s) hist = (Throw e, r')"
      using p by (simp add: l)
    from claude_catch_rule[OF assms(1) this] assms(2) q show ?thesis by simp
  qed
qed

lemma claude_stop_then_abort:
  assumes "\<not> stopRequested s" and "isCleanupError e"
    and "claudeTry cfg w pre (dropUnusableId s) hist = (Continue, r)"
  shows "swallowed (sendMessageStreamingClaude cfg w (pre @ [StopCalled, Throws e]) s hist)"
proof -
  let ?r = "r\<lparr>this := snd (stop (this r))\<rparr>"
  have "claudeTry cfg w (pre @ [StopCalled, Throws e]) (dropUnusableId s) hist = (Throw e, ?r)"
    using assms(3) by (simp add: claudeTry_def claudeLoop_continue_append)
  from claude_catch_rule[OF assms(1) this] assms(2)
    stop_while_running[OF running_try(1)[OF assms(3)]]
  show ?thesis by simp
qed

lemma codex_stop_then_abort:
  assumes "\<not> stopRequested s" and "isCleanupError e"
    and "codexTry cfg w pre (dropUnusableId s) hist = (Continue, r)"
  shows "swallowed (sendMessageStreamingCodex cfg w (pre @ [StopCalled, Throws e]) s hist)"
proof -
  let ?r = "r\<lparr>this := snd (stop (this r))\<rparr>"
  have "codexTry cfg w (pre @ [StopCalled, Throws e]) (dropUnusableId s) hist = (Throw e, ?r)"
    using assms(3) by (simp add: codexTry_def codexLoop_continue_append)
  from codex_catch_rule[OF assms(1) this] assms(2)
    stop_while_running[OF running_try(2)[OF assms(3)]]
  show ?thesis by simp
qed

lemma codex_completed_then_abort:
  assumes "\<not> stopRequested s"
    and "codexTry cfg w pre (dropUnusableId s) hist = (Continue, r)"
    and "\<not> stopRequested (this r)"
  shows "reported e (readClock w (completeTurn cfg w r))
           (sendMessageStreamingCodex cfg w (pre @ [Yields TurnCompleted, Throws e]) s hist)"
proof -
  have c: "\<not> stopRequested (this (completeTurn cfg w r))"
    using assms(3) by (simp add: completeTurn_def persist_def tick_def)
  have "codexTry cfg w (pre @ [Yields TurnCompleted, Throws e]) (dropUnusableId s) hist =
          (Throw e, completeTurn cfg w r)"
    using assms(2,3) by (simp add: codexTry_def codexLoop_continue_append codexEvent_def)
  from codex_catch_rule[OF assms(1) this] c show ?thesis by simp
qed

text \<open>
  C5, amended. An exception thrown inside the \<open>try\<close> block of a turn (by the stream, also
  while the loop closes it at a \<open>break\<close>, or by the handling of an event), with the loop's
  state at that moment: the Claude adapter swallows it when its text contains \<open>cancel\<close>
  or \<open>abort\<close> and the query had completed, or the ask-user wait was triggered, or a stop
  was requested, and reports every other exception; the Codex adapter swallows it when its
  text contains \<open>cancel\<close> or \<open>abort\<close> and a stop was requested, and reports every other
  exception. On the streams: after any events that leave the loop running, a
  cancellation-shaped exception of the Claude stream is swallowed when it follows a
  result message, a call of \<open>stop()\<close>, or an ask-user tool call for which a pending
  request is found; such an exception of the Codex stream is swallowed when it follows a
  call of \<open>stop()\<close>, but after the completion event, with no stop requested, any
  exception of the Codex stream is reported, cancellation-shaped or not. The error of a
  turn cancelled before its start is thrown to the caller and nothing is recorded.
\<close>

theorem errors_swallowed_or_reported:
  "(\<not> stopRequested s \<and> claudeTry cfg w items (dropUnusableId s) hist = (Throw e, r) \<longrightarrow>
      (if isCleanupError e \<and> (queryCompleted r \<or> askUserTriggered r \<or> stopRequested (this r))
       then swallowed (sendMessageStreamingClaude cfg w items s hist)
       else reported e (readClock w r) (sendMessageStreamingClaude cfg w items s hist)))
   \<and> (\<not> stopRequested s \<and> codexTry cfg w codexItems (dropUnusableId s) hist = (Throw e, r2) \<longrightarrow>
      (if isCleanupError e \<and> stopRequested (this r2)
       then swallowed (sendMessageStreamingCodex cfg w codexItems s hist)
       else reported e (readClock w r2) (sendMessageStreamingCodex cfg w codexItems s hist)))
   \<and> (\<not> stopRequested s \<and> isCleanupError e \<and>
      claudeTry cfg w pre (dropUnusableId s) hist = (Continue, r3) \<longrightarrow>
      swallowed (sendMessageStreamingClaude cfg w
        (pre @ [Yields (ResultMessage sid usage), Throws e]) s hist) \<and>
      swallowed (sendMessageStreamingClaude cfg w (pre @ [StopCalled, Throws e]) s hist) \<and>
      (startsWith toolName ''mcp__ask-user'' \<and> ctxPresent w \<and> chatIdGiven w \<and>
       checkPendingAskUserRequests w (polls r3) \<longrightarrow>
         swallowed (sendMessageStreamingClaude cfg w
           (pre @ [Yields (AssistantMessage sid [ToolUse toolName toolInput]), Throws e]) s hist)))
   \<and> (\<not> stopRequested s \<and> codexTry cfg w codexPre (dropUnusableId s) hist = (Continue, r4) \<longrightarrow>
      (isCleanupError e \<longrightarrow>
         swallowed (sendMessageStreamingCodex cfg w (codexPre @ [StopCalled, Throws e]) s hist)) \<and>
      (\<not> stopRequested (this r4) \<longrightarrow>
         reported e (readClock w (completeTurn cfg w r4))
           (sendMessageStreamingCodex cfg w (codexPre @ [Yields TurnCompleted, Throws e]) s hist)))
   \<and> (stopRequested s \<longrightarrow>
      fst (sendMessageStreaming cfg w items codexItems s hist) = Inl ''Error: Query cancelled'' \<and>
      lastError (this (snd (sendMessageStreaming cfg w items codexItems s hist))) = lastError s \<and>
      lastErrorTime (this (snd (sendMessageStreaming cfg w items codexItems s hist)))
        = lastErrorTime s)"
proof (intro conjI impI)
  assume "\<not> stopRequested s \<and> claudeTry cfg w items (dropUnusableId s) hist = (Throw e, r)"
  then show "if isCleanupError e \<and> (queryCompleted r \<or> askUserTriggered r \<or> stopRequested (this r))
       then swallowed (sendMessageStreamingClaude cfg w items s hist)
       else reported e (readClock w r) (sendMessageStreamingClaude cfg w items s hist)"
    using claude_catch_rule[of s cfg w items hist e r] by blast
next
  assume "\<not> stopRequested s \<and> codexTry cfg w codexItems (dropUnusableId s) hist = (Throw e, r2)"
  then show "if isCleanupError e \<and> stopRequested (this r2)
       then swallowed (sendMessageStreamingCodex cfg w codexItems s hist)
       else reported e (readClock w r2) (sendMessageStreamingCodex cfg w codexItems s hist)"
    using codex_catch_rule[of s cfg w codexItems hist e r2] by blast
next
  assume a: "\<not> stopRequested s \<and> isCleanupError e \<and>
      claudeTry cfg w pre (dropUnusableId s) hist = (Continue, r3)"
  then show "swallowed (sendMessageStreamingClaude cfg w
        (pre @ [Yields (ResultMessage sid usage), Throws e]) s hist)"
    using claude_result_then_abort[of s e cfg w pre hist r3 sid usage] by blast
  from a show "swallowed (sendMessageStreamingClaude cfg w (pre @ [StopCalled, Throws e]) s hist)"
    using claude_stop_then_abort[of s e cfg w pre hist r3] by blast
  assume "startsWith toolName ''mcp__ask-user'' \<and> ctxPresent w \<and> chatIdGiven w \<and>
       checkPendingAskUserRequests w (polls r3)"
  with a show "swallowed (sendMessageStreamingClaude cfg w
           (pre @ [Yields (AssistantMessage sid [ToolUse toolName toolInput]), Throws e]) s hist)"
    using claude_askUser_then_abort[of s e cfg w pre hist r3 toolName sid toolInput] by blast
next
  assume a: "\<not> stopRequested s \<and> codexTry cfg w codexPre (dropUnusableId s) hist = (Continue, r4)"
  {
    assume "isCleanupError e"
    with a show "swallowed (sendMessageStreamingCodex cfg w (codexPre @ [StopCalled, Throws e]) s hist)"
      using codex_stop_then_abort[of s e cfg w codexPre hist r4] by blast
  }
  {
    assume "\<not> stopRequested (this r4)"
    with a show "reported e (readClock w (completeTurn cfg w r4))
           (sendMessageStreamingCodex cfg w (codexPre @ [Yields TurnCompleted, Throws e]) s hist)"
      using codex_completed_then_abort[of s cfg w codexPre hist r4 e] by blast
  }
next
  assume "stopRequested s"
  from cancelled_before_start[OF this, of cfg w items codexItems hist]
  show "fst (sendMessageStreaming cfg w items codexItems s hist) = Inl ''Error: Query cancelled''"
    and "lastError (this (snd (sendMessageStreaming cfg w items codexItems s hist))) = lastError s"
    and "lastErrorTime (this (snd (sendMessageStreaming cfg w items codexItems s hist)))
        = lastErrorTime s"
    by simp_all
qed

theorem errors_swallowed_or_reported_witness:
  "isCleanupError abortText \<and> \<not> isCleanupError ''Error: boom'' \<and>
   swallowed (sendMessageStreamingClaude exampleConfig exampleWorld
      (greetingStream @ [Yields (ResultMessage None None), Throws abortText])
      (newSession exampleConfig) []) \<and>
   swallowed (sendMessageStreamingClaude exampleConfig exampleWorld
      (greetingStream @ [StopCalled, Throws abortText]) (newSession exampleConfig) []) \<and>
   swallowed (sendMessageStreamingClaude exampleConfig exampleWorld
      (greetingStream @
         [Yields (AssistantMessage None [ToolUse ''mcp__ask-user__ask_user'' askUserInput]),
          Throws abortText])
      (newSession exampleConfig) []) \<and>
   swallowed (sendMessageStreamingCodex exampleConfig exampleWorld
      (answerStream @ [StopCalled, Throws abortText]) codexSession []) \<and>
   reported abortText
      (readClock exampleWorld (completeTurn exampleConfig exampleWorld
         (snd (codexTry exampleConfig exampleWorld answerStream (dropUnusableId codexSession) []))))
      (sendMessageStreamingCodex exampleConfig exampleWorld
         (answerStream @ [Yields TurnCompleted, Throws abortText]) codexSession []) \<and>
   reported ''Error: boom''
      (readClock exampleWorld
         (snd (codexTry exampleConfig exampleWorld failingCodexStream (dropUnusableId codexSession) [])))
      (sendMessageStreamingCodex exampleConfig exampleWorld failingCodexStream codexSession []) \<and>
   fst (sendMessageStreaming exampleConfig exampleWorld [] [] (snd (stop processingSession)) [])
     = Inl ''Error: Query cancelled''"
proof -
  let ?n = "newSession exampleConfig"
  let ?ct = "claudeTry exampleConfig exampleWorld greetingStream (dropUnusableId ?n) []"
  let ?xt = "codexTry exampleConfig exampleWorld answerStream (dropUnusableId codexSession) []"
  let ?ft = "codexTry exampleConfig exampleWorld failingCodexStream (dropUnusableId codexSession) []"
  have s: "\<not> stopRequested ?n" "\<not> stopRequested codexSession"
    "stopRequested (snd (stop processingSession))" by code_simp+
  have c: "isCleanupError abortText" "\<not> isCleanupError ''Error: boom''" by code_simp+
  have a: "startsWith ''mcp__ask-user__ask_user'' ''mcp__ask-user''" "ctxPresent exampleWorld"
    "chatIdGiven exampleWorld" "checkPendingAskUserRequests exampleWorld (polls (snd ?ct))"
    by code_simp+
  have "fst ?ct = Continue" by code_simp
  then have ct: "?ct = (Continue, snd ?ct)" by (simp add: prod_eq_iff)
  have "fst ?xt = Continue" by code_simp
  then have xt: "?xt = (Continue, snd ?xt)" by (simp add: prod_eq_iff)
  have xs: "\<not> stopRequested (this (snd ?xt))" by code_simp
  have "fst ?ft = Throw ''Error: boom''" by code_simp
  then have ft: "?ft = (Throw ''Error: boom'', snd ?ft)" by (simp add: prod_eq_iff)
  note t1 = errors_swallowed_or_reported[where s = ?n and cfg = exampleConfig and w = exampleWorld
      and hist = "[]" and e = abortText and pre = greetingStream and ?r3.0 = "snd ?ct"
      and sid = None and usage = None and toolName = "''mcp__ask-user__ask_user''"
      and toolInput = askUserInput]
  note t2 = errors_swallowed_or_reported[where s = codexSession and cfg = exampleConfig
      and w = exampleWorld and hist = "[]" and e = abortText and codexPre = answerStream
      and ?r4.0 = "snd ?xt"]
  note t3 = errors_swallowed_or_reported[where s = codexSession and cfg = exampleConfig
      and w = exampleWorld and hist = "[]" and e = "''Error: boom''"
      and codexItems = failingCodexStream and ?r2.0 = "snd ?ft"]
  note t4 = errors_swallowed_or_reported[where s = "snd (stop processingSession)"
      and cfg = exampleConfig and w = exampleWorld and hist = "[]" and items = "[]"
      and codexItems = "[]"]
  from t1 s c a ct have 1:
    "swallowed (sendMessageStreamingClaude exampleConfig exampleWorld
      (greetingStream @ [Yields (ResultMessage None None), Throws abortText]) ?n [])"
    "swallowed (sendMessageStreamingClaude exampleConfig exampleWorld
      (greetingStream @ [StopCalled, Throws abortText]) ?n [])"
    "swallowed (sendMessageStreamingClaude exampleConfig exampleWorld
      (greetingStream @
         [Yields (AssistantMessage None [ToolUse ''mcp__ask-user__ask_user'' askUserInput]),
          Throws abortText]) ?n [])"
    by blast+
  from t2 s c xt xs have 2:
    "swallowed (sendMessageStreamingCodex exampleConfig exampleWorld
      (answerStream @ [StopCalled, Throws abortText]) codexSession [])"
    "reported abortText
      (readClock exampleWorld (completeTurn exampleConfig exampleWorld (snd ?xt)))
      (sendMessageStreamingCodex exampleConfig exampleWorld
         (answerStream @ [Yields TurnCompleted, Throws abortText]) codexSession [])"
    by blast+
  from t3 s c ft have 3:
    "reported ''Error: boom'' (readClock exampleWorld (snd ?ft))
      (sendMessageStreamingCodex exampleConfig exampleWorld failingCodexStream codexSession [])"
    by simp
  from t4 s have 4:
    "fst (sendMessageStreaming exampleConfig exampleWorld [] [] (snd (stop processingSession)) [])
     = Inl ''Error: Query cancelled''"
    by blast
  from 1 2 3 4 c show ?thesis by blast
qed

text \<open>
  C5, as stated, fails twice. A Codex turn reads its answer and the completion event (the
  thread id is stored), and the stream throws an abort error while the loop closes it: the
  error is cancellation-shaped and the turn had reached completion, yet it is thrown to
  the caller and recorded. And the error of a turn cancelled before its start is
  cancellation-shaped, a stop was requested, and it is thrown to the caller; nor is it
  recorded, as every other exception would be.
\<close>

theorem cancellation_not_swallowed_counterexample:
  "isCleanupError abortText \<and>
   sessionId (this (snd (sendMessageStreamingCodex exampleConfig exampleWorld
      (answerStream @ [Yields TurnCompleted, Throws abortText]) codexSession [])))
     = Some ''thread-1'' \<and>
   fst (sendMessageStreamingCodex exampleConfig exampleWorld
      (answerStream @ [Yields TurnCompleted, Throws abortText]) codexSession []) = Inl abortText \<and>
   lastError (this (snd (sendMessageStreamingCodex exampleConfig exampleWorld
      (answerStream @ [Yields TurnCompleted, Throws abortText]) codexSession [])))
     = Some abortText \<and>
   isCleanupError ''Error: Query cancelled'' \<and>
   stopRequested (snd (stop processingSession)) \<and>
   fst (sendMessageStreaming exampleConfig exampleWorld [] [] (snd (stop processingSession)) [])
     = Inl ''Error: Query cancelled'' \<and>
   lastError (this (snd (sendMessageStreaming exampleConfig exampleWorld [] []
      (snd (stop processingSession)) []))) = None"
  by code_simp

end
